theory Spec2Isabelle
  imports Main "HOL-Library.Word"
begin

section \<open>The allocator of Memory.cc\<close>

text \<open>
  A shallow embedding of \<^verbatim>\<open>Memory::allocate\<close> and \<^verbatim>\<open>Memory::free\<close> (src/Memory.cc).

  Machine integers keep their widths on an LP64 platform: \<^verbatim>\<open>size_t\<close> and pointers are
  \<open>64 word\<close>, the header fields are \<open>16 word\<close> (\<^verbatim>\<open>uint16_t\<close>), the page count of a large
  allocation and the offset computed by \<^verbatim>\<open>free\<close> are \<open>32 word\<close> (\<^verbatim>\<open>uint32_t\<close>); every
  operation wraps as the C operation does.

  The memory the allocator writes is a typed store: the bucket headers it constructs, by
  address, and the page counts it writes in front of large allocations, by address. The
  operating system is a black box: what \<^verbatim>\<open>mmap\<close> and \<^verbatim>\<open>munmap\<close> return is an input of each
  call (\<open>os_reply\<close>), and every call made is appended to a log, together with the
  acquisitions and releases of bucket mutexes, in program order. A \<^verbatim>\<open>munmap\<close> that succeeds
  takes with it every object of the store that lies in the range unmapped, so that a later
  access to a header or a page count that was there is a \<open>Fault\<close>. No other record of the
  mapped pages is kept: a page into which the allocator constructs a header or writes a
  page count is taken to be mapped.

  One execution context is modelled, running alone: the object \<^verbatim>\<open>instance()\<close> returns is
  the \<open>allocator\<close> field of the state, and a mutex is seen through its log entries only.
  The test for a null instance in \<^verbatim>\<open>free\<close> (line 143) never succeeds on the address of a
  thread-local object, and the assertion of line 117 compares the result of a placement
  \<^verbatim>\<open>new\<close> with its argument; both are left out.
\<close>

type_synonym addr = "64 word"

text \<open>\<^verbatim>\<open>class Memory::BucketHeader\<close> (lines 49-61), without the mutex itself.\<close>

record BucketHeader =
  preallocCount :: "16 word"
  bytesDirty :: "16 word"
  objectCount :: "16 word"
  isOpen :: bool

text \<open>The members of \<^verbatim>\<open>class Memory\<close> the code uses: \<^verbatim>\<open>pageSize_\<close> and \<^verbatim>\<open>bucket_\<close>
  (a null pointer is the address 0, as in the constructor, line 71).\<close>

record Memory =
  pageSize :: "64 word"
  bucket :: addr

text \<open>What is fixed when the file is compiled: \<^verbatim>\<open>sizeof(BucketHeader)\<close>, which depends on
  the platform's \<^verbatim>\<open>pthread_mutex_t\<close>, and whether \<^verbatim>\<open>NDEBUG\<close> is undefined (a debug build).\<close>

record config =
  headerSize :: "64 word"
  debug :: bool

datatype event =
    Acquire addr
  | Release addr
  | Mmap addr "64 word"
  | Munmap addr "64 word"

text \<open>The replies of the operating system to the (at most one) \<^verbatim>\<open>mmap\<close> and the (at most
  one) \<^verbatim>\<open>munmap\<close> of a call.\<close>

record os_reply =
  mmapRet :: addr
  munmapRet :: int

record world =
  allocator :: Memory
  headers :: "addr \<rightharpoonup> BucketHeader"
  pageCounts :: "addr \<rightharpoonup> 32 word"
  calls :: "event list"

text \<open>How a call ends when it does not return: \<open>Abort\<close> is the \<^verbatim>\<open>raise(SIGABRT)\<close> of a
  failed \<^verbatim>\<open>CC_MEM_ASSERT\<close>; \<open>Fault\<close> is an access through a pointer at which the store
  holds no object of the type read or written (undefined behaviour in C);
  \<open>DivByZero\<close> is a division by a page size of 0.\<close>

datatype error = Abort | Fault | DivByZero

definition CC_MEM_PAGE_PREALLOC :: int where
  "CC_MEM_PAGE_PREALLOC = 16"

definition CC_MEM_GRANULARITY :: "64 word" where
  "CC_MEM_GRANULARITY = 16"

definition CC_MEM_ALIGN :: "64 word \<Rightarrow> 64 word" where
  "CC_MEM_ALIGN x =
     (x div CC_MEM_GRANULARITY + (if x mod CC_MEM_GRANULARITY > 0 then 1 else 0))
       * CC_MEM_GRANULARITY"

text \<open>\<^verbatim>\<open>CC_MEM_ASSERT(x)\<close> followed by the rest of the function: in a debug build a false
  \<open>x\<close> ends the process, otherwise the macro is empty.\<close>

definition CC_MEM_ASSERT :: "config \<Rightarrow> bool \<Rightarrow> error + 'a \<Rightarrow> error + 'a" where
  "CC_MEM_ASSERT cfg x rest = (if debug cfg \<and> \<not> x then Inl Abort else rest)"

definition MAP_FAILED :: addr where
  "MAP_FAILED = - 1"

definition prefixWidth :: "64 word" where
  "prefixWidth = 4"

definition mmap :: "64 word \<Rightarrow> os_reply \<Rightarrow> world \<Rightarrow> addr \<times> world" where
  "mmap len os w = (mmapRet os, w\<lparr>calls := calls w @ [Mmap (mmapRet os) len]\<rparr>)"

text \<open>The addresses of the \<open>len\<close> bytes that start at \<open>a\<close>.\<close>

definition in_range :: "addr \<Rightarrow> 64 word \<Rightarrow> addr \<Rightarrow> bool" where
  "in_range a len x = (unat a \<le> unat x \<and> unat x < unat a + unat len)"

text \<open>What a store holds after \<^verbatim>\<open>munmap(a, len)\<close> has returned \<open>munmapRet os\<close>: when the call
  succeeded, the objects in the range are gone with their pages.\<close>

definition forget :: "os_reply \<Rightarrow> addr \<Rightarrow> 64 word \<Rightarrow> (addr \<rightharpoonup> 'a) \<Rightarrow> (addr \<rightharpoonup> 'a)" where
  "forget os a len m =
     (if munmapRet os = 0 then (\<lambda>x. if in_range a len x then None else m x) else m)"

definition munmap :: "addr \<Rightarrow> 64 word \<Rightarrow> os_reply \<Rightarrow> world \<Rightarrow> world" where
  "munmap a len os w =
     w\<lparr> headers := forget os a len (headers w),
        pageCounts := forget os a len (pageCounts w),
        calls := calls w @ [Munmap a len] \<rparr>"

text \<open>Lines 112-123 of \<^verbatim>\<open>Memory::allocate\<close>: the page of the new bucket and its header.
  \<open>b\<close> is the local \<^verbatim>\<open>bucket\<close> (the bucket just closed, or null), \<open>sz\<close> the aligned size.
  Constructing the header at \<^verbatim>\<open>MAP_FAILED\<close>, which a release build goes on to do, is a
  \<open>Fault\<close>.\<close>

definition allocate_page :: "config \<Rightarrow> os_reply \<Rightarrow> int \<Rightarrow> addr \<Rightarrow> 64 word \<Rightarrow> world
    \<Rightarrow> error + (addr \<times> world)" where
  "allocate_page cfg os prealloc b sz w =
     (let ps = pageSize (allocator w);
          (pageStart, w1) =
             (if prealloc > 0 then (b + ps, w)
              else mmap (ps * word_of_int CC_MEM_PAGE_PREALLOC) os w)
      in CC_MEM_ASSERT cfg (pageStart \<noteq> MAP_FAILED)
          (if pageStart = MAP_FAILED then Inl Fault
           else
             let h = \<lparr> preallocCount =
                         (if prealloc > 0 then word_of_int (prealloc - 1)
                          else word_of_int (CC_MEM_PAGE_PREALLOC - 1)),
                       bytesDirty = ucast (CC_MEM_ALIGN (headerSize cfg) + sz),
                       objectCount = 1,
                       isOpen = True \<rparr>
             in Inr (pageStart + CC_MEM_ALIGN (headerSize cfg),
                     w1\<lparr> headers := (headers w1)(pageStart \<mapsto> h),
                         allocator := (allocator w1)\<lparr>bucket := pageStart\<rparr> \<rparr>)))"

text \<open>\<^verbatim>\<open>Memory::allocate\<close> (lines 74-138). The destructor call of line 102 ends the life of
  the header of the bucket disposed of, whatever \<^verbatim>\<open>munmap\<close> returns then.\<close>

definition allocate :: "config \<Rightarrow> os_reply \<Rightarrow> 64 word \<Rightarrow> world \<Rightarrow> error + (addr \<times> world)" where
  "allocate cfg os size0 w =
     (let b = bucket (allocator w);
          ps = pageSize (allocator w);
          sz = CC_MEM_ALIGN size0
      in
      if sz \<le> ps - CC_MEM_ALIGN (headerSize cfg) then
        (if b \<noteq> 0 then
           (case headers w b of
              None \<Rightarrow> Inl Fault
            | Some h \<Rightarrow>
                let w1 = w\<lparr>calls := calls w @ [Acquire b]\<rparr> in
                if sz \<le> ps - ucast (bytesDirty h) then
                  Inr (b + ucast (bytesDirty h),
                       w1\<lparr> headers := (headers w1)
                              (b \<mapsto> h\<lparr> bytesDirty := bytesDirty h + ucast sz,
                                       objectCount := objectCount h + 1 \<rparr>),
                           calls := calls w1 @ [Release b] \<rparr>)
                else
                  let dispose = (objectCount h = 0);
                      prealloc = uint (preallocCount h);
                      w2 = w1\<lparr> headers := (headers w1)(b \<mapsto> h\<lparr>isOpen := False\<rparr>),
                               calls := calls w1 @ [Release b] \<rparr>
                  in
                  if dispose then
                    CC_MEM_ASSERT cfg (munmapRet os = 0)
                      (allocate_page cfg os prealloc b sz
                         (munmap b ps os (w2\<lparr>headers := (headers w2)(b := None)\<rparr>)))
                  else allocate_page cfg os prealloc b sz w2)
         else allocate_page cfg os 0 b sz w)
      else if sz \<le> ps then
        (let (pageStart, w1) = mmap ps os w
         in CC_MEM_ASSERT cfg (pageStart \<noteq> MAP_FAILED) (Inr (pageStart, w1)))
      else if ps = 0 then Inl DivByZero
      else
        (let sz' = sz + prefixWidth;
             pageCount = (ucast (sz' div ps + (if sz' mod ps > 0 then 1 else 0)) :: 32 word);
             (pageStart, w1) = mmap (ucast pageCount * ps) os w
         in CC_MEM_ASSERT cfg (pageStart \<noteq> MAP_FAILED)
              (if pageStart = MAP_FAILED then Inl Fault
               else Inr (pageStart + prefixWidth,
                         w1\<lparr>pageCounts := (pageCounts w1)(pageStart \<mapsto> pageCount)\<rparr>))))"

text \<open>\<^verbatim>\<open>Memory::free\<close> (lines 140-179). The destructor call of line 155 ends the life of
  the header of the bucket disposed of.\<close>

definition free :: "config \<Rightarrow> os_reply \<Rightarrow> addr \<Rightarrow> world \<Rightarrow> error + world" where
  "free cfg os data w =
     (let ps = pageSize (allocator w) in
      if ps = 0 then Inl DivByZero
      else
        let offset = (ucast (data mod ps) :: 32 word) in
        if offset > ucast prefixWidth then
          (let b = data - ucast offset in
           case headers w b of
             None \<Rightarrow> Inl Fault
           | Some h \<Rightarrow>
               let h' = h\<lparr>objectCount := objectCount h - 1\<rparr>;
                   dispose = (objectCount h' = 0 \<and> \<not> isOpen h');
                   w1 = w\<lparr> headers := (headers w)(b \<mapsto> h'),
                            calls := calls w @ [Acquire b, Release b] \<rparr>
               in
               if dispose then
                 CC_MEM_ASSERT cfg (munmapRet os = 0)
                   (Inr (munmap (data - ucast offset) ps os
                           (w1\<lparr>headers := (headers w1)(b := None)\<rparr>)))
               else Inr w1)
        else if offset = 0 then
          CC_MEM_ASSERT cfg (munmapRet os = 0) (Inr (munmap data ps os w))
        else if offset = ucast prefixWidth then
          (let pageStart = data - prefixWidth in
           case pageCounts w pageStart of
             None \<Rightarrow> Inl Fault
           | Some pageCount \<Rightarrow>
               CC_MEM_ASSERT cfg (munmapRet os = 0)
                 (Inr (munmap pageStart (ucast pageCount * ps) os w)))
        else Inr w)"

subsection \<open>Concrete states used to exercise the model\<close>

text \<open>A debug build on a platform with 4096-byte pages and a 48-byte \<^verbatim>\<open>BucketHeader\<close>
  (40 bytes of \<^verbatim>\<open>pthread_mutex_t\<close>, three \<^verbatim>\<open>uint16_t\<close>, one \<^verbatim>\<open>bool\<close>, padding), and its
  release counterpart.\<close>

definition example_config :: config where
  "example_config = \<lparr>headerSize = 48, debug = True\<rparr>"

definition release_config :: config where
  "release_config = \<lparr>headerSize = 48, debug = False\<rparr>"

text \<open>The state of a fresh execution context (constructor, lines 69-72) with nothing in
  the store and an empty log.\<close>

definition empty_world :: world where
  "empty_world = \<lparr> allocator = \<lparr>pageSize = 4096, bucket = 0\<rparr>,
                    headers = Map.empty, pageCounts = Map.empty, calls = [] \<rparr>"

text \<open>A state whose open bucket is the page at \<open>0x10000\<close> with the given header.\<close>

definition bucket_world :: "BucketHeader \<Rightarrow> world" where
  "bucket_world h = \<lparr> allocator = \<lparr>pageSize = 4096, bucket = 0x10000\<rparr>,
                       headers = [0x10000 \<mapsto> h], pageCounts = Map.empty, calls = [] \<rparr>"

text \<open>A state holding one large allocation of \<open>n\<close> pages mapped at \<open>0x30000\<close>.\<close>

definition large_world :: "32 word \<Rightarrow> world" where
  "large_world n = \<lparr> allocator = \<lparr>pageSize = 4096, bucket = 0\<rparr>,
                      headers = Map.empty, pageCounts = [0x30000 \<mapsto> n], calls = [] \<rparr>"

text \<open>The operating system maps at \<open>a\<close> and every \<^verbatim>\<open>munmap\<close> succeeds.\<close>

definition reply :: "addr \<Rightarrow> os_reply" where
  "reply a = \<lparr>mmapRet = a, munmapRet = 0\<rparr>"

subsection \<open>Well-formed states\<close>

text \<open>The platforms the header layout fits: the page size is a multiple of the
  granularity, small enough for the 16-bit \<open>bytesDirty\<close>, and holds a header.\<close>

definition platform_ok :: "config \<Rightarrow> world \<Rightarrow> bool" where
  "platform_ok cfg w =
     (let ps = unat (pageSize (allocator w)) in
      16 dvd ps \<and> ps < 2 ^ 16 \<and> 0 < unat (headerSize cfg) \<and> unat (headerSize cfg) \<le> ps)"

text \<open>The state of the open bucket between calls: its header is in the store and open,
  the bucket is page-aligned, the pages it counts as preallocated lie in the address space,
  and \<open>bytesDirty\<close> is a multiple of the granularity between the aligned header size and
  the page size.\<close>

definition bucket_ok :: "config \<Rightarrow> world \<Rightarrow> bool" where
  "bucket_ok cfg w =
     (let b = bucket (allocator w); ps = unat (pageSize (allocator w)) in
      b = 0 \<or>
      (case headers w b of
         None \<Rightarrow> False
       | Some h \<Rightarrow>
           isOpen h \<and> unat b mod ps = 0 \<and>
           unat b + (unat (preallocCount h) + 1) * ps < 2 ^ 64 \<and>
           16 dvd unat (bytesDirty h) \<and>
           unat (CC_MEM_ALIGN (headerSize cfg)) \<le> unat (bytesDirty h) \<and>
           unat (bytesDirty h) \<le> ps))"

text \<open>The same between the calls of any client: the header of the open bucket is
  well-formed if it is in the store at all. (A \<^verbatim>\<open>free\<close> that takes the address of the
  bucket's page for a direct allocation unmaps the header and leaves the context's
  pointer to it behind.)\<close>

definition bucket_sound :: "config \<Rightarrow> world \<Rightarrow> bool" where
  "bucket_sound cfg w = (headers w (bucket (allocator w)) = None \<or> bucket_ok cfg w)"

text \<open>The buckets of the store: none is at address 0, an open one is the context's
  bucket, and a closed one still holds an object.\<close>

definition store_ok :: "world \<Rightarrow> bool" where
  "store_ok w =
     (headers w 0 = None \<and>
      (\<forall>b h. headers w b = Some h \<longrightarrow>
         (if isOpen h then b = bucket (allocator w) else objectCount h \<noteq> 0)))"

text \<open>What the page provider is relied on for: \<^verbatim>\<open>munmap\<close> succeeds, and \<^verbatim>\<open>mmap\<close> returns
  the page-aligned base of a run of 16 pages inside the address space.\<close>

definition os_ok :: "world \<Rightarrow> os_reply \<Rightarrow> bool" where
  "os_ok w os =
     (let ps = unat (pageSize (allocator w)) in
      munmapRet os = 0 \<and> unat (mmapRet os) mod ps = 0 \<and>
      unat (mmapRet os) + 16 * ps < 2 ^ 64)"

text \<open>The pointers to objects packed in a bucket: the offset in the page is at least the
  aligned header size, a multiple of the granularity, and leaves room for one granule
  before the end of the page.\<close>

definition bucket_pointer :: "config \<Rightarrow> 64 word \<Rightarrow> addr \<Rightarrow> bool" where
  "bucket_pointer cfg ps p =
     (let off = unat (p mod ps) in
      unat (CC_MEM_ALIGN (headerSize cfg)) \<le> off \<and> 16 dvd off \<and>
      off + unat CC_MEM_GRANULARITY \<le> unat ps)"



subsection \<open>Clients\<close>

text \<open>A client of the allocator: a list of requests, each with the replies the operating
  system gives during it. \<open>Free n\<close> frees the pointer the \<open>n\<close>-th \<open>Allocate\<close> of the list
  returned (counted from 0; a request naming a pointer not yet returned is skipped).
  \<open>run\<close> yields the pointers returned and the final state, or the error that ended the
  process.\<close>

datatype request = Allocate "64 word" | Free nat

fun run :: "config \<Rightarrow> (request \<times> os_reply) list \<Rightarrow> addr list \<Rightarrow> world
    \<Rightarrow> error + (addr list \<times> world)" where
  "run cfg [] ptrs w = Inr (ptrs, w)"
| "run cfg ((Allocate s, os) # rest) ptrs w =
     (case allocate cfg os s w of
        Inl e \<Rightarrow> Inl e
      | Inr (p, w') \<Rightarrow> run cfg rest (ptrs @ [p]) w')"
| "run cfg ((Free n, os) # rest) ptrs w =
     (if n < length ptrs
      then (case free cfg os (ptrs ! n) w of
              Inl e \<Rightarrow> Inl e
            | Inr w' \<Rightarrow> run cfg rest ptrs w')
      else run cfg rest ptrs w)"


text \<open>The state after a request that fills the first bucket, a request of 0 bytes and a
  request that opens the next bucket; and the state after the release of the 0-byte
  object that follows.\<close>

definition zero_size_before :: world where
  "zero_size_before = \<lparr> allocator = \<lparr>pageSize = 4096, bucket = 0x11000\<rparr>,
       headers = [0x10000 \<mapsto> \<lparr>preallocCount = 15, bytesDirty = 4096, objectCount = 2, isOpen = False\<rparr>,
                  0x11000 \<mapsto> \<lparr>preallocCount = 14, bytesDirty = 64, objectCount = 1, isOpen = True\<rparr>],
       pageCounts = Map.empty,
       calls = [Mmap 0x10000 0x10000, Acquire 0x10000, Release 0x10000,
                Acquire 0x10000, Release 0x10000] \<rparr>"

definition zero_size_end :: world where
  "zero_size_end = \<lparr> allocator = \<lparr>pageSize = 4096, bucket = 0x11000\<rparr>,
       headers = [0x10000 \<mapsto> \<lparr>preallocCount = 15, bytesDirty = 4096, objectCount = 2, isOpen = False\<rparr>],
       pageCounts = Map.empty,
       calls = [Mmap 0x10000 0x10000, Acquire 0x10000, Release 0x10000,
                Acquire 0x10000, Release 0x10000, Munmap 0x11000 4096] \<rparr>"

text \<open>The state after a request that fills the first bucket and a request of \<open>2^64 - 1\<close>
  bytes.\<close>

definition wrapped_size_end :: world where
  "wrapped_size_end = \<lparr> allocator = \<lparr>pageSize = 4096, bucket = 0x10000\<rparr>,
       headers = [0x10000 \<mapsto> \<lparr>preallocCount = 15, bytesDirty = 4096, objectCount = 2, isOpen = True\<rparr>],
       pageCounts = Map.empty,
       calls = [Mmap 0x10000 0x10000, Acquire 0x10000, Release 0x10000] \<rparr>"

section \<open>Arithmetic of the machine integers\<close>

lemma unat_ucast_64_32: "unat (ucast (x :: 64 word) :: 32 word) = unat x mod 2 ^ 32"
  by (simp add: unsigned_ucast_eq take_bit_eq_mod)

lemma unat_ucast_32_64: "unat (ucast (x :: 32 word) :: 64 word) = unat x"
proof -
  have "unat x < 2 ^ 32" using unsigned_less [of x] by simp
  then show ?thesis by (simp add: unsigned_ucast_eq take_bit_eq_mod)
qed

lemma unat_ucast_16_64: "unat (ucast (x :: 16 word) :: 64 word) = unat x"
proof -
  have "unat x < 2 ^ 16" using unsigned_less [of x] by simp
  then show ?thesis by (simp add: unsigned_ucast_eq take_bit_eq_mod)
qed

lemma unat_ucast_64_16: "unat (ucast (x :: 64 word) :: 16 word) = unat x mod 2 ^ 16"
  by (simp add: unsigned_ucast_eq take_bit_eq_mod)

text \<open>With a page size of at most \<open>2^32\<close> the 32-bit \<^verbatim>\<open>offset\<close> of \<^verbatim>\<open>free\<close> loses nothing.\<close>

lemma offset_less_2p32:
  fixes data ps :: "64 word"
  assumes "ps \<noteq> 0" "unat ps \<le> 2 ^ 32"
  shows "unat (data mod ps) < 2 ^ 32"
proof -
  have "data mod ps < ps" using assms(1) by (simp add: word_mod_less_divisor word_neq_0_conv)
  then show ?thesis using assms(2) by (simp add: word_less_nat_alt)
qed

lemma offset_roundtrip:
  fixes data ps :: "64 word"
  assumes "ps \<noteq> 0" "unat ps \<le> 2 ^ 32"
  shows "(ucast (ucast (data mod ps) :: 32 word) :: 64 word) = data mod ps"
  using offset_less_2p32 [OF assms]
  by (simp add: word_unat_eq_iff unat_ucast_32_64 unat_ucast_64_32)

lemma offset_gt:
  fixes data ps :: "64 word"
  assumes "ps \<noteq> 0" "unat ps \<le> 2 ^ 32"
  shows "((ucast (data mod ps) :: 32 word) > ucast prefixWidth) = (data mod ps > prefixWidth)"
  using offset_less_2p32 [OF assms]
  by (simp add: word_less_nat_alt unat_ucast_64_32 prefixWidth_def)

lemma unat_pages_bytes:
  fixes n :: "32 word" and ps :: "64 word"
  assumes "unat ps \<le> 2 ^ 32"
  shows "unat (ucast n * ps) = unat n * unat ps"
proof -
  have "unat n < 2 ^ 32" using unsigned_less [of n] by simp
  then have "unat n \<le> 2 ^ 32 - 1" by simp
  then have "unat n * unat ps \<le> (2 ^ 32 - 1) * 2 ^ 32"
    using assms by (rule mult_le_mono)
  then have "unat (ucast n :: 64 word) * unat ps < 2 ^ LENGTH(64)"
    by (simp add: unat_ucast_32_64)
  then show ?thesis by (simp add: unat_mult_lem [THEN iffD1] unat_ucast_32_64)
qed

text \<open>Rounding up to the granularity, on natural numbers.\<close>

lemma align_nat:
  fixes n :: nat
  defines "k \<equiv> n div 16 + (if n mod 16 > 0 then 1 else 0)"
  shows "n \<le> k * 16" "k * 16 < n + 16" "0 < n \<Longrightarrow> 16 \<le> k * 16"
    "16 dvd m \<Longrightarrow> n \<le> m \<Longrightarrow> k * 16 \<le> m"
proof -
  define q r where "q = n div 16" and "r = n mod 16"
  have e: "q * 16 + r = n" and l: "r < 16" by (simp_all add: q_def r_def)
  have k: "k = q + (if r > 0 then 1 else 0)" by (simp add: k_def q_def r_def)
  show 1: "n \<le> k * 16" using e l k by (cases "r > 0") simp_all
  show 2: "k * 16 < n + 16" using e l k by (cases "r > 0") simp_all
  show "0 < n \<Longrightarrow> 16 \<le> k * 16" using 1 by (cases k) simp_all
  show "k * 16 \<le> m" if "16 dvd m" "n \<le> m"
  proof -
    from that(1) obtain j where j: "m = 16 * j" by (rule dvdE)
    have "k * 16 < 16 * j + 16" using 2 that(2) j by linarith
    then have "k \<le> j" by linarith
    then show ?thesis using j by simp
  qed
qed

text \<open>\<^verbatim>\<open>CC_MEM_ALIGN\<close> rounds up as long as the result fits \<^verbatim>\<open>size_t\<close>; above that it wraps.\<close>

lemma unat_CC_MEM_ALIGN:
  assumes "unat x + 15 < 2 ^ 64"
  shows "unat (CC_MEM_ALIGN x) = (unat x div 16 + (if unat x mod 16 > 0 then 1 else 0)) * 16"
proof -
  let ?c = "if x mod 16 > 0 then 1 else (0 :: 64 word)"
  let ?k = "unat x div 16 + (if unat x mod 16 > 0 then 1 else 0)"
  have c: "unat ?c = (if unat x mod 16 > 0 then 1 else 0)"
    by (simp add: word_less_nat_alt unat_mod)
  have d: "unat (x div 16) = unat x div 16" by (simp add: unat_div)
  have "?k * 16 < unat x + 16" by (rule align_nat)
  then have b: "?k * 16 < 2 ^ 64" using assms by linarith
  then have "?k < 2 ^ 64" by (cases "unat x mod 16 > 0") simp_all
  then have s: "unat (x div 16 + ?c) = ?k"
    using c d by (subst unat_add_lem [THEN iffD1]) simp_all
  have "unat ((x div 16 + ?c) * 16) = ?k * 16"
    using s b by (subst unat_mult_lem [THEN iffD1]) simp_all
  then show ?thesis
    by (simp add: CC_MEM_ALIGN_def CC_MEM_GRANULARITY_def)
qed

lemma CC_MEM_ALIGN_bounds:
  assumes "unat x + 15 < 2 ^ 64"
  shows "unat x \<le> unat (CC_MEM_ALIGN x)" "unat (CC_MEM_ALIGN x) < unat x + 16"
    "16 dvd unat (CC_MEM_ALIGN x)"
    "0 < unat x \<Longrightarrow> 16 \<le> unat (CC_MEM_ALIGN x)"
    "16 dvd m \<Longrightarrow> unat x \<le> m \<Longrightarrow> unat (CC_MEM_ALIGN x) \<le> m"
  unfolding unat_CC_MEM_ALIGN [OF assms]
  by (rule align_nat, rule align_nat, simp, erule align_nat, erule (1) align_nat)

lemma CC_MEM_ALIGN_wraps: "CC_MEM_ALIGN (- 1) = 0"
  by (simp add: CC_MEM_ALIGN_def CC_MEM_GRANULARITY_def)

lemma fits_iff:
  fixes sz ps :: "64 word" and bd :: "16 word"
  assumes "unat bd \<le> unat ps"
  shows "(sz \<le> ps - ucast bd) = (unat bd + unat sz \<le> unat ps)"
proof -
  have "(ucast bd :: 64 word) \<le> ps" using assms by (simp add: word_le_nat_alt unat_ucast_16_64)
  then have "unat (ps - ucast bd) = unat ps - unat bd"
    by (simp add: unat_sub unat_ucast_16_64)
  then show ?thesis using assms by (auto simp: word_le_nat_alt)
qed

lemma small_iff:
  fixes sz ps a :: "64 word"
  assumes "unat a \<le> unat ps"
  shows "(sz \<le> ps - a) = (unat a + unat sz \<le> unat ps)"
proof -
  have "a \<le> ps" using assms by (simp add: word_le_nat_alt)
  then have "unat (ps - a) = unat ps - unat a"
    by (simp add: unat_sub)
  then show ?thesis using assms by (auto simp: word_le_nat_alt)
qed

lemma bump_no_wrap:
  fixes bd :: "16 word" and sz :: "64 word"
  assumes "unat bd + unat sz < 2 ^ 16"
  shows "unat (bd + ucast sz) = unat bd + unat sz"
proof -
  have "unat (ucast sz :: 16 word) = unat sz" using assms by (simp add: unat_ucast_64_16)
  then show ?thesis using assms by (simp add: unat_add_lem [THEN iffD1])
qed

section \<open>Stores after \<^verbatim>\<open>munmap\<close>\<close>

lemma forget_apply:
  "forget os a len m x = (if munmapRet os = 0 \<and> in_range a len x then None else m x)"
  by (simp add: forget_def)

lemma forget_empty: "forget os a len Map.empty = Map.empty"
  by (simp add: forget_def)

lemma forget_upd:
  "forget os a len (m(k \<mapsto> v)) =
     (if munmapRet os = 0 \<and> in_range a len k then forget os a len m
      else (forget os a len m)(k \<mapsto> v))"
  by (auto simp add: forget_def fun_eq_iff)

lemma forget_del: "forget os a len (m(k := None)) = (forget os a len m)(k := None)"
  by (auto simp add: forget_def fun_eq_iff)

lemmas forget_simps = forget_empty forget_upd forget_del in_range_def

section \<open>The paths of \<^verbatim>\<open>free\<close>\<close>

lemma free_bucket_path:
  fixes data :: addr
  assumes "pageSize (allocator w) \<noteq> 0" "unat (pageSize (allocator w)) \<le> 2 ^ 32"
      and "prefixWidth < data mod pageSize (allocator w)"
      and "headers w (data - data mod pageSize (allocator w)) = Some h"
      and "munmapRet os = 0 \<or> \<not> debug cfg \<or> objectCount h - 1 \<noteq> 0 \<or> isOpen h"
  shows "free cfg os data w =
           Inr (if objectCount h - 1 = 0 \<and> \<not> isOpen h
                then w\<lparr> headers := forget os (data - data mod pageSize (allocator w))
                                     (pageSize (allocator w))
                                     ((headers w)(data - data mod pageSize (allocator w) := None)),
                        pageCounts := forget os (data - data mod pageSize (allocator w))
                                        (pageSize (allocator w)) (pageCounts w),
                        calls := calls w @ [Acquire (data - data mod pageSize (allocator w)),
                                            Release (data - data mod pageSize (allocator w)),
                                            Munmap (data - data mod pageSize (allocator w))
                                                   (pageSize (allocator w))] \<rparr>
                else w\<lparr> headers := (headers w)(data - data mod pageSize (allocator w)
                                        \<mapsto> h\<lparr>objectCount := objectCount h - 1\<rparr>),
                        calls := calls w @ [Acquire (data - data mod pageSize (allocator w)),
                                            Release (data - data mod pageSize (allocator w))] \<rparr>)"
  using assms
  by (auto simp add: free_def Let_def offset_gt offset_roundtrip CC_MEM_ASSERT_def munmap_def)

lemma free_direct_path:
  fixes data :: addr
  assumes "pageSize (allocator w) \<noteq> 0"
      and "data mod pageSize (allocator w) = 0"
      and "munmapRet os = 0 \<or> \<not> debug cfg"
  shows "free cfg os data w =
           Inr (w\<lparr> headers := forget os data (pageSize (allocator w)) (headers w),
                    pageCounts := forget os data (pageSize (allocator w)) (pageCounts w),
                    calls := calls w @ [Munmap data (pageSize (allocator w))] \<rparr>)"
  using assms
  by (auto simp add: free_def Let_def CC_MEM_ASSERT_def munmap_def prefixWidth_def)

lemma free_large_path:
  fixes data :: addr
  assumes "pageSize (allocator w) \<noteq> 0"
      and "data mod pageSize (allocator w) = prefixWidth"
      and "pageCounts w (data - prefixWidth) = Some n"
      and "munmapRet os = 0 \<or> \<not> debug cfg"
  shows "free cfg os data w =
           Inr (w\<lparr> headers := forget os (data - prefixWidth) (ucast n * pageSize (allocator w))
                                 (headers w),
                    pageCounts := forget os (data - prefixWidth) (ucast n * pageSize (allocator w))
                                    (pageCounts w),
                    calls := calls w @ [Munmap (data - prefixWidth) (ucast n * pageSize (allocator w))] \<rparr>)"
  using assms
  by (auto simp add: free_def Let_def CC_MEM_ASSERT_def munmap_def prefixWidth_def)

section \<open>The paths of \<^verbatim>\<open>allocate\<close>\<close>

lemma allocate_fast:
  assumes small: "CC_MEM_ALIGN s \<le> pageSize (allocator w) - CC_MEM_ALIGN (headerSize cfg)"
      and b: "bucket (allocator w) \<noteq> 0"
      and h: "headers w (bucket (allocator w)) = Some h"
      and fits: "unat (bytesDirty h) + unat (CC_MEM_ALIGN s) \<le> unat (pageSize (allocator w))"
  shows "allocate cfg os s w =
           Inr (bucket (allocator w) + ucast (bytesDirty h),
                w\<lparr> headers := (headers w)(bucket (allocator w) \<mapsto>
                        h\<lparr> bytesDirty := bytesDirty h + ucast (CC_MEM_ALIGN s),
                           objectCount := objectCount h + 1 \<rparr>),
                    calls := calls w @ [Acquire (bucket (allocator w)),
                                        Release (bucket (allocator w))] \<rparr>)"
proof -
  have "unat (bytesDirty h) \<le> unat (pageSize (allocator w))" using fits by simp
  then have "CC_MEM_ALIGN s \<le> pageSize (allocator w) - ucast (bytesDirty h)"
    using fits by (simp add: fits_iff)
  then show ?thesis using small b h by (simp add: allocate_def Let_def)
qed

lemma allocate_page_result:
  assumes "if 0 < prealloc then b + pageSize (allocator w) \<noteq> MAP_FAILED
           else mmapRet os \<noteq> MAP_FAILED"
  shows "allocate_page cfg os prealloc b sz w =
           (let ps = pageSize (allocator w);
                pageStart = (if 0 < prealloc then b + ps else mmapRet os)
            in Inr (pageStart + CC_MEM_ALIGN (headerSize cfg),
                    w\<lparr> allocator := (allocator w)\<lparr>bucket := pageStart\<rparr>,
                        headers := (headers w)(pageStart \<mapsto>
                           \<lparr> preallocCount = (if 0 < prealloc then word_of_int (prealloc - 1) else 15),
                             bytesDirty = ucast (CC_MEM_ALIGN (headerSize cfg) + sz),
                             objectCount = 1, isOpen = True \<rparr>),
                        calls := calls w @ (if 0 < prealloc then [] else [Mmap (mmapRet os) (ps * 16)]) \<rparr>))"
  using assms
  by (auto simp add: allocate_page_def Let_def mmap_def CC_MEM_ASSERT_def CC_MEM_PAGE_PREALLOC_def)

lemma allocate_direct_path:
  assumes "\<not> CC_MEM_ALIGN s \<le> pageSize (allocator w) - CC_MEM_ALIGN (headerSize cfg)"
      and "CC_MEM_ALIGN s \<le> pageSize (allocator w)"
      and "mmapRet os \<noteq> MAP_FAILED \<or> \<not> debug cfg"
  shows "allocate cfg os s w =
           Inr (mmapRet os, w\<lparr>calls := calls w @ [Mmap (mmapRet os) (pageSize (allocator w))]\<rparr>)"
  using assms by (auto simp add: allocate_def Let_def mmap_def CC_MEM_ASSERT_def)

lemma allocate_large_path:
  assumes "\<not> CC_MEM_ALIGN s \<le> pageSize (allocator w) - CC_MEM_ALIGN (headerSize cfg)"
      and "\<not> CC_MEM_ALIGN s \<le> pageSize (allocator w)"
      and "pageSize (allocator w) \<noteq> 0"
      and "mmapRet os \<noteq> MAP_FAILED"
  shows "allocate cfg os s w =
           (let ps = pageSize (allocator w);
                sz' = CC_MEM_ALIGN s + prefixWidth;
                pageCount = (ucast (sz' div ps + (if sz' mod ps > 0 then 1 else 0)) :: 32 word)
            in Inr (mmapRet os + prefixWidth,
                    w\<lparr> pageCounts := (pageCounts w)(mmapRet os \<mapsto> pageCount),
                        calls := calls w @ [Mmap (mmapRet os) (ucast pageCount * ps)] \<rparr>))"
  using assms by (auto simp add: allocate_def Let_def mmap_def CC_MEM_ASSERT_def)

lemma dvd16_below_2p64:
  fixes x :: "64 word"
  assumes "16 dvd unat x"
  shows "unat x + 16 \<le> 2 ^ 64"
proof -
  from assms obtain j where j: "unat x = 16 * j" by (rule dvdE)
  have "unat x < 2 ^ 64" using unsigned_less [of x] by simp
  then have "j < 2 ^ 60" using j by simp
  then show ?thesis using j by simp
qed

lemma direct_range:
  assumes d: "16 dvd unat ps" and hp: "unat hdr \<le> unat ps"
      and lo: "unat ps - unat hdr < unat s" and hi: "unat s \<le> unat ps"
  shows "\<not> CC_MEM_ALIGN s \<le> ps - CC_MEM_ALIGN hdr" "CC_MEM_ALIGN s \<le> ps"
proof -
  have top: "unat ps + 16 \<le> 2 ^ 64" using d by (rule dvd16_below_2p64)
  have s: "unat s + 15 < 2 ^ 64" and h: "unat hdr + 15 < 2 ^ 64" using top hi hp by simp_all
  have as: "unat (CC_MEM_ALIGN s) \<le> unat ps" using d hi by (rule CC_MEM_ALIGN_bounds(5) [OF s])
  have ah: "unat (CC_MEM_ALIGN hdr) \<le> unat ps" using d hp by (rule CC_MEM_ALIGN_bounds(5) [OF h])
  show "CC_MEM_ALIGN s \<le> ps" using as by (simp add: word_le_nat_alt)
  have "unat s \<le> unat (CC_MEM_ALIGN s)" "unat hdr \<le> unat (CC_MEM_ALIGN hdr)"
    using CC_MEM_ALIGN_bounds(1) [OF s] CC_MEM_ALIGN_bounds(1) [OF h] by simp_all
  then have "\<not> unat (CC_MEM_ALIGN hdr) + unat (CC_MEM_ALIGN s) \<le> unat ps"
    using lo by linarith
  then show "\<not> CC_MEM_ALIGN s \<le> ps - CC_MEM_ALIGN hdr"
    by (simp only: small_iff [OF ah] not_False_eq_True)
qed

lemma uint_preallocCount: "(0 < uint (x :: 16 word)) = (x \<noteq> 0)"
  by (simp add: word_neq_0_conv word_less_def)

text \<open>When the request does not fit the open bucket, or there is none.\<close>

lemma allocate_rollover:
  assumes small: "CC_MEM_ALIGN s \<le> pageSize (allocator w) - CC_MEM_ALIGN (headerSize cfg)"
      and nofit: "bucket (allocator w) = 0 \<or>
                  (headers w (bucket (allocator w)) = Some h \<and>
                   \<not> CC_MEM_ALIGN s \<le> pageSize (allocator w) - ucast (bytesDirty h))"
      and unmapped: "munmapRet os = 0 \<or> \<not> debug cfg"
      and mapped: "(if bucket (allocator w) \<noteq> 0 \<and> preallocCount h \<noteq> 0
                    then bucket (allocator w) + pageSize (allocator w) else mmapRet os) \<noteq> MAP_FAILED"
  shows "allocate cfg os s w =
           Inr ((if bucket (allocator w) \<noteq> 0 \<and> preallocCount h \<noteq> 0
                 then bucket (allocator w) + pageSize (allocator w) else mmapRet os)
                  + CC_MEM_ALIGN (headerSize cfg),
                w\<lparr> allocator := (allocator w)\<lparr>bucket :=
                      (if bucket (allocator w) \<noteq> 0 \<and> preallocCount h \<noteq> 0
                       then bucket (allocator w) + pageSize (allocator w) else mmapRet os)\<rparr>,
                    headers := (if bucket (allocator w) = 0 then headers w
                                else if objectCount h = 0
                                     then forget os (bucket (allocator w)) (pageSize (allocator w))
                                            ((headers w)(bucket (allocator w) := None))
                                else (headers w)(bucket (allocator w) \<mapsto> h\<lparr>isOpen := False\<rparr>))
                      ((if bucket (allocator w) \<noteq> 0 \<and> preallocCount h \<noteq> 0
                        then bucket (allocator w) + pageSize (allocator w) else mmapRet os) \<mapsto>
                       \<lparr> preallocCount = (if bucket (allocator w) \<noteq> 0 \<and> preallocCount h \<noteq> 0
                                           then preallocCount h - 1 else 15),
                         bytesDirty = ucast (CC_MEM_ALIGN (headerSize cfg) + CC_MEM_ALIGN s),
                         objectCount = 1, isOpen = True \<rparr>),
                    pageCounts := (if bucket (allocator w) \<noteq> 0 \<and> objectCount h = 0
                                   then forget os (bucket (allocator w)) (pageSize (allocator w))
                                          (pageCounts w)
                                   else pageCounts w),
                    calls := calls w
                      @ (if bucket (allocator w) = 0 then []
                         else [Acquire (bucket (allocator w)), Release (bucket (allocator w))])
                      @ (if bucket (allocator w) \<noteq> 0 \<and> objectCount h = 0
                         then [Munmap (bucket (allocator w)) (pageSize (allocator w))] else [])
                      @ (if bucket (allocator w) \<noteq> 0 \<and> preallocCount h \<noteq> 0 then []
                         else [Mmap (mmapRet os) (pageSize (allocator w) * 16)]) \<rparr>)"
proof (cases "bucket (allocator w) = 0")
  case True
  then show ?thesis
    using small mapped
    by (simp add: allocate_def Let_def allocate_page_result)
next
  case False
  then have h: "headers w (bucket (allocator w)) = Some h"
    and nf: "\<not> CC_MEM_ALIGN s \<le> pageSize (allocator w) - ucast (bytesDirty h)"
    using nofit by auto
  show ?thesis
    using False small h nf mapped unmapped
    by (auto simp add: allocate_def Let_def allocate_page_result munmap_def CC_MEM_ASSERT_def
          uint_preallocCount)
qed

lemma header_sum_no_wrap:
  fixes a sz ps :: "64 word"
  assumes "unat ps < 2 ^ 16" "a \<le> ps" "sz \<le> ps - a"
  shows "unat (ucast (a + sz) :: 16 word) = unat a + unat sz"
proof -
  have "unat a \<le> unat ps" using assms(2) by (simp add: word_le_nat_alt)
  then have le: "unat a + unat sz \<le> unat ps"
    using assms(3) by (simp only: small_iff)
  then have "unat a + unat sz < 2 ^ 64" using assms(1) by simp
  then have "unat (a + sz) = unat a + unat sz"
    by (simp add: unat_add_lem [THEN iffD1])
  then show ?thesis using le assms(1) by (simp add: unat_ucast_64_16)
qed

lemma CC_MEM_ALIGN_examples:
  "CC_MEM_ALIGN 8 = 16" "CC_MEM_ALIGN 16 = 16" "CC_MEM_ALIGN 48 = 48" "CC_MEM_ALIGN 0 = 0"
  "CC_MEM_ALIGN 4048 = 4048" "CC_MEM_ALIGN 4090 = 4096" "CC_MEM_ALIGN 5000 = 5008"
  by (simp_all add: CC_MEM_ALIGN_def CC_MEM_GRANULARITY_def)

lemmas ex_defs = example_config_def release_config_def empty_world_def bucket_world_def
  large_world_def reply_def prefixWidth_def

section \<open>Small requests in well-formed states\<close>

lemma dvd16_CC_MEM_ALIGN: "16 dvd unat (CC_MEM_ALIGN x)"
proof -
  have "(16::nat) dvd 2 ^ 64" by simp
  then show ?thesis
    by (simp add: CC_MEM_ALIGN_def CC_MEM_GRANULARITY_def unat_word_ariths dvd_mod)
qed

lemma platform_facts:
  assumes "platform_ok cfg w"
  shows "pageSize (allocator w) \<noteq> 0" "unat (pageSize (allocator w)) < 2 ^ 16"
    "16 dvd unat (pageSize (allocator w))"
    "16 \<le> unat (CC_MEM_ALIGN (headerSize cfg))"
    "unat (CC_MEM_ALIGN (headerSize cfg)) \<le> unat (pageSize (allocator w))"
    "unat (headerSize cfg) \<le> unat (CC_MEM_ALIGN (headerSize cfg))"
proof -
  let ?ps = "pageSize (allocator w)"
  have p: "16 dvd unat ?ps" "unat ?ps < 2 ^ 16" "0 < unat (headerSize cfg)"
    "unat (headerSize cfg) \<le> unat ?ps"
    using assms by (simp_all add: platform_ok_def Let_def)
  show "unat ?ps < 2 ^ 16" "16 dvd unat ?ps" by fact+
  have "0 < unat ?ps" using p(3,4) by linarith
  then show "?ps \<noteq> 0" by (simp add: unat_gt_0)
  have h: "unat (headerSize cfg) + 15 < 2 ^ 64" using p(2,4) by simp
  show "16 \<le> unat (CC_MEM_ALIGN (headerSize cfg))"
    using p(3) by (rule CC_MEM_ALIGN_bounds(4) [OF h])
  show "unat (CC_MEM_ALIGN (headerSize cfg)) \<le> unat ?ps"
    using p(1,4) by (rule CC_MEM_ALIGN_bounds(5) [OF h])
  show "unat (headerSize cfg) \<le> unat (CC_MEM_ALIGN (headerSize cfg))"
    by (rule CC_MEM_ALIGN_bounds(1) [OF h])
qed

lemma unat_add_no_wrap:
  fixes x y :: "64 word"
  assumes "unat x + unat y < 2 ^ 64"
  shows "unat (x + y) = unat x + unat y"
  using assms by (simp add: unat_add_lem [THEN iffD1])

lemma page_offset:
  fixes base off ps :: "64 word"
  assumes "unat base mod unat ps = 0" "unat base + unat ps < 2 ^ 64" "unat off < unat ps"
  shows "unat ((base + off) mod ps) = unat off" "(base + off) - (base + off) mod ps = base"
proof -
  have s: "unat (base + off) = unat base + unat off"
    using assms(2,3) by (intro unat_add_no_wrap) linarith
  have "(unat base + unat off) mod unat ps = unat off"
    using assms(1,3) by (simp add: mod_add_eq [symmetric])
  then show m: "unat ((base + off) mod ps) = unat off"
    using s by (simp add: unat_mod)
  then have "(base + off) mod ps = off" by (simp add: word_unat_eq_iff)
  then show "(base + off) - (base + off) mod ps = base" by simp
qed

lemma unat_MAP_FAILED: "unat MAP_FAILED = 2 ^ 64 - 1"
  by (simp add: MAP_FAILED_def unsigned_minus_1_eq_mask mask_eq_exp_minus_1)

text \<open>What a small request yields in a well-formed state: a pointer into the bucket that
  is open afterwards, at an offset between the aligned header size and the page size
  less the aligned request.\<close>

lemma allocate_small_ok:
  assumes pl: "platform_ok cfg w" and bk: "bucket_ok cfg w" and os: "os_ok w os"
      and small: "CC_MEM_ALIGN s \<le> pageSize (allocator w) - CC_MEM_ALIGN (headerSize cfg)"
  shows "\<exists>p w' h' off.
           allocate cfg os s w = Inr (p, w') \<and>
           pageSize (allocator w') = pageSize (allocator w) \<and>
           headers w' (bucket (allocator w')) = Some h' \<and> isOpen h' \<and>
           unat (bucket (allocator w')) mod unat (pageSize (allocator w)) = 0 \<and>
           unat (bucket (allocator w')) + unat (pageSize (allocator w)) < 2 ^ 64 \<and>
           p = bucket (allocator w') + off \<and>
           unat (CC_MEM_ALIGN (headerSize cfg)) \<le> unat off \<and> 16 dvd unat off \<and>
           unat off + unat (CC_MEM_ALIGN s) \<le> unat (pageSize (allocator w)) \<and>
           bucket_ok cfg w'"
proof -
  let ?ps = "pageSize (allocator w)" and ?a = "CC_MEM_ALIGN (headerSize cfg)"
  let ?sz = "CC_MEM_ALIGN s" and ?b = "bucket (allocator w)"
  note pf = platform_facts [OF pl]
  have a16: "16 dvd unat ?a" and sz16: "16 dvd unat ?sz" by (rule dvd16_CC_MEM_ALIGN)+
  have sum: "unat ?a + unat ?sz \<le> unat ?ps" using small by (simp only: small_iff [OF pf(5)])
  have ale: "?a \<le> ?ps" using pf(5) by (simp add: word_le_nat_alt)
  have hsum: "unat (ucast (?a + ?sz) :: 16 word) = unat ?a + unat ?sz"
    using pf(2) ale small by (rule header_sum_no_wrap)
  have o: "munmapRet os = 0" "unat (mmapRet os) mod unat ?ps = 0"
    "unat (mmapRet os) + 16 * unat ?ps < 2 ^ 64"
    using os by (simp_all add: os_ok_def Let_def)
  have ps0: "0 < unat ?ps" using pf(1) by (simp add: unat_gt_0)
  have retok: "mmapRet os \<noteq> MAP_FAILED"
  proof
    assume "mmapRet os = MAP_FAILED"
    then have "unat (mmapRet os) = 2 ^ 64 - 1" by (simp only: unat_MAP_FAILED)
    then show False using o(3) ps0 by simp
  qed
  have top15: "unat (mmapRet os) + (unat (15 :: 16 word) + 1) * unat ?ps < 2 ^ 64"
    using o(3) by simp
  text \<open>The header of a bucket opened at \<open>pageStart\<close> with \<open>pc\<close> pages left.\<close>
  have fresh: ?thesis
    if res: "allocate cfg os s w =
               Inr (pageStart + ?a,
                    w\<lparr> allocator := (allocator w)\<lparr>bucket := pageStart\<rparr>,
                        headers := hs(pageStart \<mapsto>
                           \<lparr> preallocCount = pc, bytesDirty = ucast (?a + ?sz),
                             objectCount = 1, isOpen = True \<rparr>),
                        pageCounts := pcs,
                        calls := cs \<rparr>)"
      and al: "unat pageStart mod unat ?ps = 0"
      and top: "unat pageStart + (unat pc + 1) * unat ?ps < 2 ^ 64"
    for pageStart hs pc pcs cs
  proof -
    let ?h' = "\<lparr> preallocCount = pc, bytesDirty = ucast (?a + ?sz),
                  objectCount = 1, isOpen = True \<rparr>"
    let ?w' = "w\<lparr> allocator := (allocator w)\<lparr>bucket := pageStart\<rparr>,
                   headers := hs(pageStart \<mapsto> ?h'), pageCounts := pcs, calls := cs \<rparr>"
    have "unat ?ps \<le> (unat pc + 1) * unat ?ps" by simp
    then have top1: "unat pageStart + unat ?ps < 2 ^ 64" using top by linarith
    have "bucket_ok cfg ?w'"
      using al top hsum a16 sz16 sum by (simp add: bucket_ok_def Let_def)
    then show ?thesis
      using res al top1 a16 sum
      by (intro exI [of _ "pageStart + ?a"] exI [of _ ?w'] exI [of _ ?h'] exI [of _ ?a]) simp
  qed
  show ?thesis
  proof (cases "?b = 0")
    case True
    have m: "(if ?b \<noteq> 0 \<and> preallocCount undefined \<noteq> 0 then ?b + ?ps else mmapRet os) \<noteq> MAP_FAILED"
      using True retok by simp
    have res: "allocate cfg os s w =
            Inr (mmapRet os + ?a,
                 w\<lparr> allocator := (allocator w)\<lparr>bucket := mmapRet os\<rparr>,
                     headers := (headers w)(mmapRet os \<mapsto>
                        \<lparr> preallocCount = 15, bytesDirty = ucast (?a + ?sz),
                          objectCount = 1, isOpen = True \<rparr>),
                     pageCounts := pageCounts w,
                     calls := calls w @ [Mmap (mmapRet os) (?ps * 16)] \<rparr>)"
      using allocate_rollover [OF small _ _ m] True o(1) by simp
    show ?thesis by (rule fresh [OF res o(2) top15])
  next
    case False
    then obtain h where h: "headers w ?b = Some h" and op: "isOpen h"
      and al: "unat ?b mod unat ?ps = 0"
      and top: "unat ?b + (unat (preallocCount h) + 1) * unat ?ps < 2 ^ 64"
      and bd: "16 dvd unat (bytesDirty h)" "unat ?a \<le> unat (bytesDirty h)"
              "unat (bytesDirty h) \<le> unat ?ps"
      using bk by (auto simp add: bucket_ok_def Let_def split: option.splits)
    have "unat ?ps \<le> (unat (preallocCount h) + 1) * unat ?ps" by simp
    then have top1: "unat ?b + unat ?ps < 2 ^ 64" using top by linarith
    show ?thesis
    proof (cases "unat (bytesDirty h) + unat ?sz \<le> unat ?ps")
      case True
      let ?h' = "h\<lparr> bytesDirty := bytesDirty h + ucast ?sz, objectCount := objectCount h + 1 \<rparr>"
      let ?w' = "w\<lparr> headers := (headers w)(?b \<mapsto> ?h'),
                     calls := calls w @ [Acquire ?b, Release ?b] \<rparr>"
      have res: "allocate cfg os s w = Inr (?b + ucast (bytesDirty h), ?w')"
        using small False h True by (rule allocate_fast)
      have "unat (bytesDirty h) + unat ?sz < 2 ^ 16" using True pf(2) by linarith
      then have n: "unat (bytesDirty h + ucast ?sz) = unat (bytesDirty h) + unat ?sz"
        by (rule bump_no_wrap)
      have "bucket_ok cfg ?w'"
        using False op al top bd n sz16 True by (simp add: bucket_ok_def Let_def)
      then show ?thesis
        using res al top1 bd True op
        by (intro exI [of _ "?b + ucast (bytesDirty h)"] exI [of _ ?w'] exI [of _ ?h']
                  exI [of _ "ucast (bytesDirty h)"])
           (simp add: unat_ucast_16_64)
    next
      case nofit: False
      then have nf: "\<not> ?sz \<le> ?ps - ucast (bytesDirty h)" by (simp add: fits_iff [OF bd(3)])
      have nofit': "?b = 0 \<or> (headers w ?b = Some h \<and> \<not> ?sz \<le> ?ps - ucast (bytesDirty h))"
        using h nf by simp
      have un: "munmapRet os = 0 \<or> \<not> debug cfg" using o(1) by simp
      show ?thesis
      proof (cases "preallocCount h = 0")
        case True
        have m: "(if ?b \<noteq> 0 \<and> preallocCount h \<noteq> 0 then ?b + ?ps else mmapRet os) \<noteq> MAP_FAILED"
          using True retok by simp
        have res: "allocate cfg os s w =
            Inr (mmapRet os + ?a,
                 w\<lparr> allocator := (allocator w)\<lparr>bucket := mmapRet os\<rparr>,
                     headers := (if objectCount h = 0
                                 then forget os ?b ?ps ((headers w)(?b := None))
                                 else (headers w)(?b \<mapsto> h\<lparr>isOpen := False\<rparr>))
                       (mmapRet os \<mapsto>
                        \<lparr> preallocCount = 15, bytesDirty = ucast (?a + ?sz),
                          objectCount = 1, isOpen = True \<rparr>),
                     pageCounts := (if objectCount h = 0 then forget os ?b ?ps (pageCounts w)
                                    else pageCounts w),
                     calls := calls w @ [Acquire ?b, Release ?b]
                       @ (if objectCount h = 0 then [Munmap ?b ?ps] else [])
                       @ [Mmap (mmapRet os) (?ps * 16)] \<rparr>)"
          using allocate_rollover [OF small nofit' un m] True False by simp
        show ?thesis by (rule fresh [OF res o(2) top15])
      next
        case pc: False
        then have pc1: "1 \<le> unat (preallocCount h)" by (simp add: Suc_le_eq unat_gt_0)
        have "2 * unat ?ps \<le> (unat (preallocCount h) + 1) * unat ?ps"
          using pc1 by (intro mult_le_mono1) simp
        then have top2: "unat ?b + 2 * unat ?ps < 2 ^ 64" using top by linarith
        then have nx: "unat (?b + ?ps) = unat ?b + unat ?ps"
          by (intro unat_add_no_wrap) linarith
        have nal: "unat (?b + ?ps) mod unat ?ps = 0" using nx al by simp
        have npc: "unat (preallocCount h - 1) = unat (preallocCount h) - 1"
          using pc by (simp add: unat_minus_one)
        have e: "unat (preallocCount h - 1) + 1 = unat (preallocCount h)"
          using npc pc1 by simp
        have ntop: "unat (?b + ?ps) + (unat (preallocCount h - 1) + 1) * unat ?ps < 2 ^ 64"
          using top unfolding e nx by (simp add: algebra_simps)
        have "?b + ?ps \<noteq> MAP_FAILED"
        proof
          assume "?b + ?ps = MAP_FAILED"
          then have "unat (?b + ?ps) = 2 ^ 64 - 1" by (simp only: unat_MAP_FAILED)
          then show False using nx top2 ps0 by simp
        qed
        then have m: "(if ?b \<noteq> 0 \<and> preallocCount h \<noteq> 0 then ?b + ?ps else mmapRet os) \<noteq> MAP_FAILED"
          using pc False by simp
        have res: "allocate cfg os s w =
            Inr (?b + ?ps + ?a,
                 w\<lparr> allocator := (allocator w)\<lparr>bucket := ?b + ?ps\<rparr>,
                     headers := (if objectCount h = 0
                                 then forget os ?b ?ps ((headers w)(?b := None))
                                 else (headers w)(?b \<mapsto> h\<lparr>isOpen := False\<rparr>))
                       (?b + ?ps \<mapsto>
                        \<lparr> preallocCount = preallocCount h - 1, bytesDirty = ucast (?a + ?sz),
                          objectCount = 1, isOpen = True \<rparr>),
                     pageCounts := (if objectCount h = 0 then forget os ?b ?ps (pageCounts w)
                                    else pageCounts w),
                     calls := calls w @ [Acquire ?b, Release ?b]
                       @ (if objectCount h = 0 then [Munmap ?b ?ps] else []) \<rparr>)"
          using allocate_rollover [OF small nofit' un m] pc False by simp
        show ?thesis by (rule fresh [OF res nal ntop])
      qed
    qed
  qed
qed

lemma small_request:
  assumes pl: "platform_ok cfg w"
      and small: "unat s + unat (CC_MEM_ALIGN (headerSize cfg)) \<le> unat (pageSize (allocator w))"
  shows "CC_MEM_ALIGN s \<le> pageSize (allocator w) - CC_MEM_ALIGN (headerSize cfg)"
    "0 < unat s \<Longrightarrow> 16 \<le> unat (CC_MEM_ALIGN s)"
proof -
  let ?ps = "pageSize (allocator w)" and ?a = "CC_MEM_ALIGN (headerSize cfg)"
  note pf = platform_facts [OF pl]
  have s: "unat s + 15 < 2 ^ 64" using small pf(2) by simp
  show "0 < unat s \<Longrightarrow> 16 \<le> unat (CC_MEM_ALIGN s)" by (rule CC_MEM_ALIGN_bounds(4) [OF s])
  have "16 dvd unat ?ps - unat ?a" using pf(3) dvd16_CC_MEM_ALIGN by (rule dvd_diff_nat)
  moreover have "unat s \<le> unat ?ps - unat ?a" using small by linarith
  ultimately have "unat (CC_MEM_ALIGN s) \<le> unat ?ps - unat ?a"
    by (rule CC_MEM_ALIGN_bounds(5) [OF s])
  then have "unat ?a + unat (CC_MEM_ALIGN s) \<le> unat ?ps" using pf(5) by linarith
  then show "CC_MEM_ALIGN s \<le> ?ps - ?a" by (simp only: small_iff [OF pf(5)])
qed



lemma os_ok_facts:
  assumes "os_ok w os" "pageSize (allocator w) \<noteq> 0"
  shows "munmapRet os = 0" "mmapRet os \<noteq> MAP_FAILED" "mmapRet os mod pageSize (allocator w) = 0"
proof -
  let ?ps = "pageSize (allocator w)"
  have o: "munmapRet os = 0" "unat (mmapRet os) mod unat ?ps = 0"
    "unat (mmapRet os) + 16 * unat ?ps < 2 ^ 64"
    using assms(1) by (simp_all add: os_ok_def Let_def)
  show "munmapRet os = 0" by fact
  have ps0: "0 < unat ?ps" using assms(2) by (simp add: unat_gt_0)
  show "mmapRet os \<noteq> MAP_FAILED"
  proof
    assume "mmapRet os = MAP_FAILED"
    then have "unat (mmapRet os) = 2 ^ 64 - 1" by (simp only: unat_MAP_FAILED)
    then show False using o(3) ps0 by simp
  qed
  show "mmapRet os mod ?ps = 0"
    using o(2) by (simp add: word_unat_eq_iff unat_mod)
qed



lemma ceil_div_nat:
  fixes m d :: nat
  assumes "0 < d"
  defines "n \<equiv> m div d + (if m mod d > 0 then 1 else 0)"
  shows "m \<le> n * d" "n * d < m + d"
proof -
  define q r where "q = m div d" and "r = m mod d"
  have e: "q * d + r = m" and l: "r < d" using assms(1) by (simp_all add: q_def r_def)
  have n: "n = q + (if r > 0 then 1 else 0)" by (simp add: n_def q_def r_def)
  show "m \<le> n * d" using e l n by (cases "r > 0") (simp_all add: algebra_simps)
  show "n * d < m + d" using e l n assms(1) by (cases "r > 0") (simp_all add: algebra_simps)
qed

section \<open>Sequences of calls\<close>

lemmas run_defs = allocate_def allocate_page_def free_def mmap_def munmap_def Let_def
  CC_MEM_ASSERT_def CC_MEM_PAGE_PREALLOC_def MAP_FAILED_def CC_MEM_ALIGN_examples
  forget_simps

text \<open>What a call of \<^verbatim>\<open>free\<close> that returns does to the store: a header is gone, or as it
  was, or has one object less and is not both closed and empty.\<close>

lemma free_effect:
  assumes "free cfg os data w = Inr w'"
  shows "allocator w' = allocator w"
    and "headers w' x = None \<or> headers w' x = headers w x \<or>
         (\<exists>h. headers w x = Some h \<and> \<not> (objectCount h - 1 = 0 \<and> \<not> isOpen h) \<and>
              headers w' x = Some (h\<lparr>objectCount := objectCount h - 1\<rparr>))"
proof -
  let ?ps = "pageSize (allocator w)"
  let ?off = "ucast (data mod ?ps) :: 32 word"
  let ?b = "data - ucast ?off"
  have ps: "?ps \<noteq> 0" using assms by (auto simp add: free_def)
  have "allocator w' = allocator w \<and>
        (headers w' x = None \<or> headers w' x = headers w x \<or>
         (\<exists>h. headers w x = Some h \<and> \<not> (objectCount h - 1 = 0 \<and> \<not> isOpen h) \<and>
              headers w' x = Some (h\<lparr>objectCount := objectCount h - 1\<rparr>)))"
  proof (cases "ucast prefixWidth < ?off")
    case True
    then obtain h where h: "headers w ?b = Some h"
      using assms ps by (cases "headers w ?b") (simp_all add: free_def Let_def)
    show ?thesis
    proof (cases "objectCount h - 1 = 0 \<and> \<not> isOpen h")
      case dispose: True
      then have "w' = w\<lparr> headers := forget os ?b ?ps ((headers w)(?b := None)),
                          pageCounts := forget os ?b ?ps (pageCounts w),
                          calls := calls w @ [Acquire ?b, Release ?b, Munmap ?b ?ps] \<rparr>"
        using assms ps True h
        by (auto simp add: free_def Let_def CC_MEM_ASSERT_def munmap_def split: if_splits)
      then show ?thesis
        by (simp add: forget_apply)
    next
      case False
      then have "w' = w\<lparr> headers := (headers w)(?b \<mapsto> h\<lparr>objectCount := objectCount h - 1\<rparr>),
                          calls := calls w @ [Acquire ?b, Release ?b] \<rparr>"
        using assms ps True h
        by (auto simp add: free_def Let_def CC_MEM_ASSERT_def split: if_splits)
      then show ?thesis using False h by auto
    qed
  next
    case False
    then have "w' = w \<or> (\<exists>a len. w' = munmap a len os w)"
      using assms ps
      by (auto simp add: free_def Let_def CC_MEM_ASSERT_def split: if_splits option.splits)
    then show ?thesis
      by (auto simp add: munmap_def forget_apply split: if_splits)
  qed
  then show "allocator w' = allocator w"
    and "headers w' x = None \<or> headers w' x = headers w x \<or>
         (\<exists>h. headers w x = Some h \<and> \<not> (objectCount h - 1 = 0 \<and> \<not> isOpen h) \<and>
              headers w' x = Some (h\<lparr>objectCount := objectCount h - 1\<rparr>))"
    by simp_all
qed

text \<open>The open-bucket invariant holds initially. A call of \<^verbatim>\<open>allocate\<close> that returns
  establishes it for a small request and keeps it otherwise; a call of \<^verbatim>\<open>free\<close> keeps
  it as long as the header of the open bucket is in the store, which a \<^verbatim>\<open>free\<close> that takes
  the address of the bucket's page for a direct allocation ends.\<close>

lemma bucket_ok_initial: "bucket_ok cfg empty_world" "platform_ok example_config empty_world"
  by (simp_all add: bucket_ok_def platform_ok_def empty_world_def example_config_def)

lemma bucket_sound_initial: "bucket_sound cfg empty_world"
  by (simp add: bucket_sound_def empty_world_def)

lemma bucket_ok_cong:
  assumes "allocator w' = allocator w"
      and "headers w' (bucket (allocator w)) = headers w (bucket (allocator w))"
  shows "bucket_ok cfg w' = bucket_ok cfg w"
  using assms by (simp add: bucket_ok_def)

lemma bucket_sound_allocate:
  assumes pl: "platform_ok cfg w" and bk: "bucket_sound cfg w" and os: "os_ok w os"
      and res: "allocate cfg os s w = Inr (p, w')"
  shows "bucket_sound cfg w'" "pageSize (allocator w') = pageSize (allocator w)"
proof -
  have "bucket_sound cfg w' \<and> pageSize (allocator w') = pageSize (allocator w)"
  proof (cases "CC_MEM_ALIGN s \<le> pageSize (allocator w) - CC_MEM_ALIGN (headerSize cfg)")
    case True
    have "bucket (allocator w) = 0 \<or> headers w (bucket (allocator w)) \<noteq> None"
      using res True by (auto simp add: allocate_def Let_def split: option.splits if_splits)
    then have "bucket_ok cfg w"
      using bk by (auto simp add: bucket_sound_def bucket_ok_def Let_def)
    from allocate_small_ok [OF pl this os True] res show ?thesis
      by (auto simp add: bucket_sound_def)
  next
    case False
    then have "allocator w' = allocator w \<and> headers w' = headers w"
      using res
      by (auto simp add: allocate_def Let_def mmap_def CC_MEM_ASSERT_def split: if_splits)
    then show ?thesis
      using bk bucket_ok_cong [of w' w cfg] by (simp add: bucket_sound_def)
  qed
  then show "bucket_sound cfg w'" "pageSize (allocator w') = pageSize (allocator w)" by simp_all
qed

lemma bucket_sound_free:
  assumes bk: "bucket_sound cfg w" and res: "free cfg os data w = Inr w'"
  shows "bucket_sound cfg w'" "pageSize (allocator w') = pageSize (allocator w)"
proof -
  let ?b = "bucket (allocator w)"
  note e = free_effect [OF res]
  show "pageSize (allocator w') = pageSize (allocator w)" using e(1) by simp
  from e(2) [of ?b] show "bucket_sound cfg w'"
  proof (elim disjE exE conjE)
    assume "headers w' ?b = None"
    then show ?thesis using e(1) by (simp add: bucket_sound_def)
  next
    assume "headers w' ?b = headers w ?b"
    then show ?thesis
      using bk bucket_ok_cong [OF e(1), of cfg] e(1) by (simp add: bucket_sound_def)
  next
    fix h
    assume h: "headers w ?b = Some h"
      and h': "headers w' ?b = Some (h\<lparr>objectCount := objectCount h - 1\<rparr>)"
    have "bucket_ok cfg w" using bk h by (simp add: bucket_sound_def)
    then have "bucket_ok cfg w'"
      using h h' e(1) by (simp add: bucket_ok_def Let_def)
    then show ?thesis by (simp add: bucket_sound_def)
  qed
qed

text \<open>No bucket of the store is closed and empty: a bucket is unmapped, and its header
  gone, as soon as it is both.\<close>

lemma store_okI:
  assumes "headers w 0 = None"
      and "\<And>b h. headers w b = Some h \<Longrightarrow> isOpen h \<Longrightarrow> b = bucket (allocator w)"
      and "\<And>b h. headers w b = Some h \<Longrightarrow> \<not> isOpen h \<Longrightarrow> objectCount h \<noteq> 0"
  shows "store_ok w"
  using assms by (simp add: store_ok_def)

lemma store_okD:
  assumes "store_ok w"
  shows "headers w 0 = None"
    and "headers w b = Some h \<Longrightarrow> isOpen h \<Longrightarrow> b = bucket (allocator w)"
    and "headers w b = Some h \<Longrightarrow> \<not> isOpen h \<Longrightarrow> objectCount h \<noteq> 0"
  using assms by (auto simp add: store_ok_def split: if_splits)

lemma store_ok_initial: "store_ok empty_world"
  by (simp add: store_ok_def empty_world_def)

lemma store_ok_free:
  assumes st: "store_ok w" and res: "free cfg os data w = Inr w'"
  shows "store_ok w'"
proof (rule store_okI)
  note d = store_okD [OF st]
  note e = free_effect [OF res]
  show "headers w' 0 = None" using e(2) [of 0] d(1) by auto
  show "b = bucket (allocator w')" if k: "headers w' b = Some k" and op: "isOpen k" for b k
    using e(2) [of b]
  proof (elim disjE exE conjE)
    assume "headers w' b = None"
    then show ?thesis using k by simp
  next
    assume "headers w' b = headers w b"
    then have "headers w b = Some k" using k by simp
    then show ?thesis using d(2) op e(1) by simp
  next
    fix h
    assume h: "headers w b = Some h"
      and h': "headers w' b = Some (h\<lparr>objectCount := objectCount h - 1\<rparr>)"
    have "isOpen h" using h' k op by auto
    then show ?thesis using d(2) [OF h] e(1) by simp
  qed
  show "objectCount k \<noteq> 0" if k: "headers w' b = Some k" and cl: "\<not> isOpen k" for b k
    using e(2) [of b]
  proof (elim disjE exE conjE)
    assume "headers w' b = None"
    then show ?thesis using k by simp
  next
    assume "headers w' b = headers w b"
    then have "headers w b = Some k" using k by simp
    then show ?thesis using d(3) cl by simp
  next
    fix h
    assume h: "headers w b = Some h"
      and keep: "\<not> (objectCount h - 1 = 0 \<and> \<not> isOpen h)"
      and h': "headers w' b = Some (h\<lparr>objectCount := objectCount h - 1\<rparr>)"
    have "k = h\<lparr>objectCount := objectCount h - 1\<rparr>" using h' k by simp
    then show ?thesis using keep cl by auto
  qed
qed

lemma store_ok_allocate:
  assumes pl: "platform_ok cfg w" and bk: "bucket_sound cfg w" and os: "os_ok w os"
      and nz: "mmapRet os \<noteq> 0"
      and st: "store_ok w"
      and res: "allocate cfg os s w = Inr (p, w')"
  shows "store_ok w'"
proof (cases "CC_MEM_ALIGN s \<le> pageSize (allocator w) - CC_MEM_ALIGN (headerSize cfg)")
  case nsmall: False
  then have "headers w' = headers w \<and> bucket (allocator w') = bucket (allocator w)"
    using res
    by (auto simp add: allocate_def Let_def mmap_def CC_MEM_ASSERT_def split: if_splits)
  then show ?thesis using st by (simp add: store_ok_def)
next
  case small: True
  let ?ps = "pageSize (allocator w)" and ?b = "bucket (allocator w)"
  let ?sz = "CC_MEM_ALIGN s"
  note pf = platform_facts [OF pl]
  note of = os_ok_facts [OF os pf(1)]
  note d = store_okD [OF st]
  have ps0: "0 < unat ?ps" using pf(1) by (simp add: unat_gt_0)
  have "?b = 0 \<or> headers w ?b \<noteq> None"
    using res small by (auto simp add: allocate_def Let_def split: option.splits if_splits)
  then have bk: "bucket_ok cfg w"
    using bk by (auto simp add: bucket_sound_def bucket_ok_def Let_def)
  text \<open>A new bucket at \<open>pageStart\<close>, the old one closed or gone.\<close>
  have fresh: ?thesis
    if hs: "headers w' = closed(pageStart \<mapsto> h')" and al: "bucket (allocator w') = pageStart"
      and ne: "pageStart \<noteq> 0" and op: "isOpen h'"
      and c0: "closed 0 = None"
      and c1: "\<And>b h. closed b = Some h \<Longrightarrow> \<not> isOpen h \<and> objectCount h \<noteq> 0"
    for closed pageStart h'
    unfolding store_ok_def hs al using ne op c0 c1 by (auto split: if_splits)
  show ?thesis
  proof (cases "?b = 0")
    case True
    have m: "(if ?b \<noteq> 0 \<and> preallocCount undefined \<noteq> 0 then ?b + ?ps else mmapRet os) \<noteq> MAP_FAILED"
      using True of(2) by simp
    have w': "headers w' = (headers w)(mmapRet os \<mapsto>
                  \<lparr> preallocCount = 15,
                    bytesDirty = ucast (CC_MEM_ALIGN (headerSize cfg) + ?sz),
                    objectCount = 1, isOpen = True \<rparr>)"
             "bucket (allocator w') = mmapRet os"
      using allocate_rollover [OF small _ _ m] True of(1) res by auto
    have c1: "\<not> isOpen h \<and> objectCount h \<noteq> 0" if "headers w b = Some h" for b h
      using that d(1) d(2) [OF that] d(3) [OF that] True by (cases "isOpen h") auto
    show ?thesis by (rule fresh [OF w' nz _ d(1)]) (simp, erule c1)
  next
    case False
    then obtain h where h: "headers w ?b = Some h" and op: "isOpen h"
      and top: "unat ?b + (unat (preallocCount h) + 1) * unat ?ps < 2 ^ 64"
      and bd: "unat (bytesDirty h) \<le> unat ?ps"
      using bk by (auto simp add: bucket_ok_def Let_def split: option.splits)
    show ?thesis
    proof (cases "unat (bytesDirty h) + unat ?sz \<le> unat ?ps")
      case True
      have w': "headers w' = (headers w)(?b \<mapsto>
                    h\<lparr> bytesDirty := bytesDirty h + ucast ?sz,
                       objectCount := objectCount h + 1 \<rparr>)"
               "allocator w' = allocator w"
        using allocate_fast [OF small False h True, of os] res by auto
      show ?thesis
        unfolding store_ok_def w'
        using d op False by (auto split: if_splits)
    next
      case nofit: False
      then have nf: "\<not> ?sz \<le> ?ps - ucast (bytesDirty h)" by (simp add: fits_iff [OF bd])
      have nofit': "?b = 0 \<or> (headers w ?b = Some h \<and> \<not> ?sz \<le> ?ps - ucast (bytesDirty h))"
        using h nf by simp
      have un: "munmapRet os = 0 \<or> \<not> debug cfg" using of(1) by simp
      have nxt: "?b + ?ps \<noteq> MAP_FAILED \<and> ?b + ?ps \<noteq> 0" if pc: "preallocCount h \<noteq> 0"
      proof -
        have pc1: "1 \<le> unat (preallocCount h)" using pc by (simp add: Suc_le_eq unat_gt_0)
        have "2 * unat ?ps \<le> (unat (preallocCount h) + 1) * unat ?ps"
          using pc1 by (intro mult_le_mono1) simp
        then have top2: "unat ?b + 2 * unat ?ps < 2 ^ 64" using top by linarith
        then have nx: "unat (?b + ?ps) = unat ?b + unat ?ps"
          by (intro unat_add_no_wrap) linarith
        have "?b + ?ps \<noteq> MAP_FAILED"
        proof
          assume "?b + ?ps = MAP_FAILED"
          then have "unat (?b + ?ps) = 2 ^ 64 - 1" by (simp only: unat_MAP_FAILED)
          then show False using nx top2 ps0 by simp
        qed
        moreover have "?b + ?ps \<noteq> 0"
        proof
          assume "?b + ?ps = 0"
          then have "unat (?b + ?ps) = 0" by simp
          then show False using nx ps0 by simp
        qed
        ultimately show ?thesis by simp
      qed
      let ?start = "if preallocCount h \<noteq> 0 then ?b + ?ps else mmapRet os"
      let ?closed = "if objectCount h = 0 then forget os ?b ?ps ((headers w)(?b := None))
                     else (headers w)(?b \<mapsto> h\<lparr>isOpen := False\<rparr>)"
      have m: "(if ?b \<noteq> 0 \<and> preallocCount h \<noteq> 0 then ?b + ?ps else mmapRet os) \<noteq> MAP_FAILED"
        using nxt of(2) by simp
      have w': "headers w' = ?closed(?start \<mapsto>
                    \<lparr> preallocCount = (if preallocCount h \<noteq> 0 then preallocCount h - 1 else 15),
                      bytesDirty = ucast (CC_MEM_ALIGN (headerSize cfg) + ?sz),
                      objectCount = 1, isOpen = True \<rparr>)"
               "bucket (allocator w') = ?start"
        using allocate_rollover [OF small nofit' un m] False res by auto
      have ne: "?start \<noteq> 0" using nxt nz by simp
      have c0: "?closed 0 = None" using d(1) False by (simp add: forget_apply)
      have c1: "\<not> isOpen k \<and> objectCount k \<noteq> 0" if "?closed b = Some k" for b k
      proof (cases "b = ?b")
        case True
        then show ?thesis using that by (auto simp add: forget_apply split: if_splits)
      next
        case nb: False
        then have k: "headers w b = Some k"
          using that by (auto simp add: forget_apply split: if_splits)
        show ?thesis using d(2) [OF k] d(3) [OF k] nb by (cases "isOpen k") auto
      qed
      show ?thesis by (rule fresh [OF w' ne _ c0]) (simp, erule c1)
    qed
  qed
qed

text \<open>Along every sequence of calls that returns, with the page provider answering as
  relied on and never mapping at address 0: no bucket of the store is closed and empty
  (such a bucket was unmapped when it became so), the open one is the context's, and its
  header, if it is still in the store, is well-formed.\<close>

lemma store_ok_run:
  assumes "run cfg reqs ptrs w = Inr (ptrs', w')"
      and "platform_ok cfg w" and "bucket_sound cfg w" and "store_ok w"
      and "\<forall>(r, os) \<in> set reqs. os_ok w os \<and> mmapRet os \<noteq> 0"
  shows "store_ok w' \<and> bucket_sound cfg w' \<and> pageSize (allocator w') = pageSize (allocator w)"
  using assms
proof (induction reqs arbitrary: ptrs w)
  case Nil
  then show ?case by simp
next
  case (Cons req rest)
  obtain r os where req: "req = (r, os)" by (cases req)
  have os: "os_ok w os" "mmapRet os \<noteq> 0" using Cons.prems(5) req by simp_all
  show ?case
  proof (cases r)
    case (Allocate s)
    with Cons.prems(1) req obtain p w1 where a: "allocate cfg os s w = Inr (p, w1)"
      and r: "run cfg rest (ptrs @ [p]) w1 = Inr (ptrs', w')"
      by (auto split: sum.splits)
    note k = bucket_sound_allocate [OF Cons.prems(2,3) os(1) a]
    note st = store_ok_allocate [OF Cons.prems(2,3) os Cons.prems(4) a]
    have "platform_ok cfg w1" using Cons.prems(2) k(2) by (simp add: platform_ok_def)
    moreover have "\<forall>(r, os) \<in> set rest. os_ok w1 os \<and> mmapRet os \<noteq> 0"
      using Cons.prems(5) k(2) by (auto simp add: os_ok_def)
    ultimately show ?thesis
      using Cons.IH [OF r _ k(1) st] k(2) by simp
  next
    case (Free n)
    show ?thesis
    proof (cases "n < length ptrs")
      case True
      with Cons.prems(1) req Free obtain w1 where f: "free cfg os (ptrs ! n) w = Inr w1"
        and r: "run cfg rest ptrs w1 = Inr (ptrs', w')"
        by (auto split: sum.splits)
      note k = bucket_sound_free [OF Cons.prems(3) f]
      note st = store_ok_free [OF Cons.prems(4) f]
      have "platform_ok cfg w1" using Cons.prems(2) k(2) by (simp add: platform_ok_def)
      moreover have "\<forall>(r, os) \<in> set rest. os_ok w1 os \<and> mmapRet os \<noteq> 0"
        using Cons.prems(5) k(2) by (auto simp add: os_ok_def)
      ultimately show ?thesis
        using Cons.IH [OF r _ k(1) st] k(2) by simp
    next
      case False
      then have "run cfg rest ptrs w = Inr (ptrs', w')" using Cons.prems(1) req Free by simp
      moreover have "\<forall>(r, os) \<in> set rest. os_ok w os \<and> mmapRet os \<noteq> 0"
        using Cons.prems(5) by simp
      ultimately show ?thesis using Cons.IH Cons.prems(2,3,4) by blast
    qed
  qed
qed

text \<open>A request of positive size that \<^verbatim>\<open>CC_MEM_ALIGN\<close> does not wrap and that is small, made
  in a state whose open bucket is well-formed: the call returns a bucket pointer into the
  bucket that is open afterwards, and \<^verbatim>\<open>free\<close> takes it for one.\<close>

lemma allocate_small_pointer:
  assumes pl: "platform_ok cfg w" and bk: "bucket_ok cfg w" and os: "os_ok w os"
      and pos: "0 < unat s"
      and small: "unat s + unat (CC_MEM_ALIGN (headerSize cfg)) \<le> unat (pageSize (allocator w))"
  shows "\<exists>p w'. allocate cfg os s w = Inr (p, w') \<and>
           bucket_pointer cfg (pageSize (allocator w)) p \<and>
           p - p mod pageSize (allocator w) = bucket (allocator w') \<and>
           headers w' (bucket (allocator w')) \<noteq> None"
proof -
  let ?ps = "pageSize (allocator w)" and ?a = "CC_MEM_ALIGN (headerSize cfg)"
  note pf = platform_facts [OF pl]
  note sm = small_request [OF pl small]
  from allocate_small_ok [OF pl bk os sm(1)]
  obtain p w' h' off where
    res: "allocate cfg os s w = Inr (p, w')"
    and h': "headers w' (bucket (allocator w')) = Some h'"
    and al: "unat (bucket (allocator w')) mod unat ?ps = 0"
    and top: "unat (bucket (allocator w')) + unat ?ps < 2 ^ 64"
    and p: "p = bucket (allocator w') + off"
    and off: "unat ?a \<le> unat off" "16 dvd unat off" "unat off + unat (CC_MEM_ALIGN s) \<le> unat ?ps"
    by (elim exE conjE)
  have o16: "unat off + 16 \<le> unat ?ps" using off(3) sm(2) [OF pos] by linarith
  then have lt: "unat off < unat ?ps" by linarith
  have m: "unat (p mod ?ps) = unat off" and base: "p - p mod ?ps = bucket (allocator w')"
    unfolding p by (rule page_offset [OF al top lt])+
  show ?thesis
    using res h' m base off(1,2) o16
    by (intro exI [of _ p] exI [of _ w'])
       (simp add: bucket_pointer_def Let_def CC_MEM_GRANULARITY_def)
qed

lemma bucket_pointer_dispatch:
  assumes pl: "platform_ok cfg w" and bp: "bucket_pointer cfg (pageSize (allocator w)) p"
  shows "ucast prefixWidth < (ucast (p mod pageSize (allocator w)) :: 32 word)"
    and "prefixWidth < p mod pageSize (allocator w)"
proof -
  let ?ps = "pageSize (allocator w)"
  note pf = platform_facts [OF pl]
  have lo: "16 \<le> unat (p mod ?ps)" and hi: "unat (p mod ?ps) < unat ?ps"
    using bp pf(4) by (simp_all add: bucket_pointer_def Let_def CC_MEM_GRANULARITY_def)
  have "unat (p mod ?ps) < 2 ^ 32" using hi pf(2) by simp
  then have "unat (ucast (p mod ?ps) :: 32 word) = unat (p mod ?ps)"
    by (simp add: unat_ucast_64_32)
  then show "ucast prefixWidth < (ucast (p mod ?ps) :: 32 word)"
    using lo by (simp add: word_less_nat_alt prefixWidth_def)
  show "prefixWidth < p mod ?ps"
    using lo by (simp add: word_less_nat_alt prefixWidth_def)
qed

text \<open>Along every sequence of releases and of small requests of positive size that
  \<^verbatim>\<open>CC_MEM_ALIGN\<close> does not wrap, from a state whose open bucket is sound and with the page
  provider answering as relied on, every pointer returned is a bucket pointer.\<close>

lemma small_pointers_run:
  assumes "run cfg reqs ptrs w = Inr (ptrs', w')"
      and "platform_ok cfg w" and "bucket_sound cfg w"
      and "\<forall>(r, os) \<in> set reqs. os_ok w os \<and>
             (\<forall>s. r = Allocate s \<longrightarrow> 0 < unat s \<and>
                  unat s + unat (CC_MEM_ALIGN (headerSize cfg)) \<le> unat (pageSize (allocator w)))"
      and "\<forall>p \<in> set ptrs. bucket_pointer cfg (pageSize (allocator w)) p"
  shows "\<forall>p \<in> set ptrs'. bucket_pointer cfg (pageSize (allocator w)) p"
  using assms
proof (induction reqs arbitrary: ptrs w)
  case Nil
  then show ?case by simp
next
  case (Cons req rest)
  obtain r os where req: "req = (r, os)" by (cases req)
  have os: "os_ok w os" using Cons.prems(4) req by simp
  show ?case
  proof (cases r)
    case (Allocate s)
    with Cons.prems(1) req obtain p w1 where a: "allocate cfg os s w = Inr (p, w1)"
      and r: "run cfg rest (ptrs @ [p]) w1 = Inr (ptrs', w')"
      by (auto split: sum.splits)
    have s: "0 < unat s"
      "unat s + unat (CC_MEM_ALIGN (headerSize cfg)) \<le> unat (pageSize (allocator w))"
      using Cons.prems(4) req Allocate by simp_all
    note sm = small_request [OF Cons.prems(2) s(2)]
    have "bucket (allocator w) = 0 \<or> headers w (bucket (allocator w)) \<noteq> None"
      using a sm(1) by (auto simp add: allocate_def Let_def split: option.splits if_splits)
    then have bk: "bucket_ok cfg w"
      using Cons.prems(3) by (auto simp add: bucket_sound_def bucket_ok_def Let_def)
    from allocate_small_pointer [OF Cons.prems(2) bk os s] a
    have bp: "bucket_pointer cfg (pageSize (allocator w)) p" by auto
    note k = bucket_sound_allocate [OF Cons.prems(2,3) os a]
    have "platform_ok cfg w1" using Cons.prems(2) k(2) by (simp add: platform_ok_def)
    moreover have "os_ok w1 = os_ok w" using k(2) by (simp add: fun_eq_iff os_ok_def)
    then have "\<forall>(r, os) \<in> set rest. os_ok w1 os \<and>
             (\<forall>s. r = Allocate s \<longrightarrow> 0 < unat s \<and>
                  unat s + unat (CC_MEM_ALIGN (headerSize cfg)) \<le> unat (pageSize (allocator w1)))"
      using Cons.prems(4) k(2) by simp
    moreover have "\<forall>q \<in> set (ptrs @ [p]). bucket_pointer cfg (pageSize (allocator w1)) q"
      using Cons.prems(5) bp k(2) by simp
    ultimately show ?thesis
      using Cons.IH [OF r _ k(1)] k(2) by simp
  next
    case (Free n)
    show ?thesis
    proof (cases "n < length ptrs")
      case True
      with Cons.prems(1) req Free obtain w1 where f: "free cfg os (ptrs ! n) w = Inr w1"
        and r: "run cfg rest ptrs w1 = Inr (ptrs', w')"
        by (auto split: sum.splits)
      note k = bucket_sound_free [OF Cons.prems(3) f]
      have "platform_ok cfg w1" using Cons.prems(2) k(2) by (simp add: platform_ok_def)
      moreover have "os_ok w1 = os_ok w" using k(2) by (simp add: fun_eq_iff os_ok_def)
      then have "\<forall>(r, os) \<in> set rest. os_ok w1 os \<and>
             (\<forall>s. r = Allocate s \<longrightarrow> 0 < unat s \<and>
                  unat s + unat (CC_MEM_ALIGN (headerSize cfg)) \<le> unat (pageSize (allocator w1)))"
        using Cons.prems(4) k(2) by simp
      moreover have "\<forall>q \<in> set ptrs. bucket_pointer cfg (pageSize (allocator w1)) q"
        using Cons.prems(5) k(2) by simp
      ultimately show ?thesis
        using Cons.IH [OF r _ k(1)] k(2) by simp
    next
      case False
      then have "run cfg rest ptrs w = Inr (ptrs', w')" using Cons.prems(1) req Free by simp
      moreover have "\<forall>(r, os) \<in> set rest. os_ok w os \<and>
             (\<forall>s. r = Allocate s \<longrightarrow> 0 < unat s \<and>
                  unat s + unat (CC_MEM_ALIGN (headerSize cfg)) \<le> unat (pageSize (allocator w)))"
        using Cons.prems(4) by simp
      ultimately show ?thesis using Cons.IH Cons.prems(2,3,5) by blast
    qed
  qed
qed



section \<open>The claims\<close>

text \<open>
  Claim C1. \<^verbatim>\<open>free\<close> takes the pointer and nothing else about the allocation (no size, no
  class), and its behaviour is decided by \<open>offset = data mod pageSize\<close> alone, for every
  pointer, on a platform whose page size is not 0 and at most \<open>2^32\<close> and when the
  \<^verbatim>\<open>munmap\<close> it issues succeeds (or the build does not check it):
  \<^item> \<open>offset > prefixWidth\<close>: the header read and written is the one at \<open>data - offset\<close>;
    its \<open>objectCount\<close> is decremented, and the page at \<open>data - offset\<close> is unmapped when
    the count reached 0 on a closed bucket;
  \<^item> \<open>offset = 0\<close>: the only effect is \<^verbatim>\<open>munmap(data, pageSize)\<close>, one page at the pointer;
  \<^item> \<open>offset = prefixWidth\<close>: the page count \<open>n\<close> is read at \<open>data - prefixWidth\<close> and
    the only call is \<^verbatim>\<open>munmap(data - prefixWidth, n * pageSize)\<close>, whose length is
    exactly \<open>n\<close> pages.
  In each branch the state after the call is the state before it with the log extended
  and, where a \<^verbatim>\<open>munmap\<close> succeeded, without the objects that were in the range unmapped
  (\<open>forget\<close>).
\<close>

theorem free_dispatch:
  fixes data :: addr
  assumes ps: "pageSize (allocator w) \<noteq> 0" "unat (pageSize (allocator w)) \<le> 2 ^ 32"
      and os: "munmapRet os = 0 \<or> \<not> debug cfg"
  shows "(let ps = pageSize (allocator w); offset = data mod ps; b = data - offset in
          (prefixWidth < offset \<longrightarrow> headers w b = Some h \<longrightarrow>
             free cfg os data w =
               Inr (if objectCount h - 1 = 0 \<and> \<not> isOpen h
                    then w\<lparr> headers := forget os b ps ((headers w)(b := None)),
                            pageCounts := forget os b ps (pageCounts w),
                            calls := calls w @ [Acquire b, Release b, Munmap b ps] \<rparr>
                    else w\<lparr> headers := (headers w)(b \<mapsto> h\<lparr>objectCount := objectCount h - 1\<rparr>),
                            calls := calls w @ [Acquire b, Release b] \<rparr>))
        \<and> (offset = 0 \<longrightarrow>
             free cfg os data w =
               Inr (w\<lparr> headers := forget os data ps (headers w),
                       pageCounts := forget os data ps (pageCounts w),
                       calls := calls w @ [Munmap data ps] \<rparr>))
        \<and> (offset = prefixWidth \<longrightarrow> pageCounts w (data - prefixWidth) = Some n \<longrightarrow>
             free cfg os data w =
               Inr (w\<lparr> headers := forget os (data - prefixWidth) (ucast n * ps) (headers w),
                       pageCounts := forget os (data - prefixWidth) (ucast n * ps) (pageCounts w),
                       calls := calls w @ [Munmap (data - prefixWidth) (ucast n * ps)] \<rparr>)
             \<and> unat (ucast n * ps) = unat n * unat ps))"
  unfolding Let_def
proof (intro conjI impI)
  assume "prefixWidth < data mod pageSize (allocator w)"
     and "headers w (data - data mod pageSize (allocator w)) = Some h"
  then show "free cfg os data w =
      Inr (if objectCount h - 1 = 0 \<and> \<not> isOpen h
           then w\<lparr> headers := forget os (data - data mod pageSize (allocator w))
                                (pageSize (allocator w))
                                ((headers w)(data - data mod pageSize (allocator w) := None)),
                   pageCounts := forget os (data - data mod pageSize (allocator w))
                                   (pageSize (allocator w)) (pageCounts w),
                   calls := calls w @ [Acquire (data - data mod pageSize (allocator w)),
                                       Release (data - data mod pageSize (allocator w)),
                                       Munmap (data - data mod pageSize (allocator w))
                                              (pageSize (allocator w))] \<rparr>
           else w\<lparr> headers := (headers w)(data - data mod pageSize (allocator w)
                                   \<mapsto> h\<lparr>objectCount := objectCount h - 1\<rparr>),
                   calls := calls w @ [Acquire (data - data mod pageSize (allocator w)),
                                       Release (data - data mod pageSize (allocator w))] \<rparr>)"
    using ps os by (intro free_bucket_path) auto
next
  assume "data mod pageSize (allocator w) = 0"
  then show "free cfg os data w =
      Inr (w\<lparr> headers := forget os data (pageSize (allocator w)) (headers w),
              pageCounts := forget os data (pageSize (allocator w)) (pageCounts w),
              calls := calls w @ [Munmap data (pageSize (allocator w))] \<rparr>)"
    using ps os by (intro free_direct_path)
next
  assume "data mod pageSize (allocator w) = prefixWidth"
     and "pageCounts w (data - prefixWidth) = Some n"
  then show "free cfg os data w =
      Inr (w\<lparr> headers := forget os (data - prefixWidth) (ucast n * pageSize (allocator w))
                            (headers w),
              pageCounts := forget os (data - prefixWidth) (ucast n * pageSize (allocator w))
                               (pageCounts w),
              calls := calls w @ [Munmap (data - prefixWidth) (ucast n * pageSize (allocator w))] \<rparr>)"
    using ps os by (intro free_large_path)
next
  show "unat (ucast n * pageSize (allocator w)) = unat n * unat (pageSize (allocator w))"
    using ps(2) by (rule unat_pages_bytes)
qed

theorem free_dispatch_witness:
  "free example_config (reply 0) 0x10030
        (bucket_world \<lparr>preallocCount = 15, bytesDirty = 64, objectCount = 1, isOpen = False\<rparr>)
     = Inr ((bucket_world \<lparr>preallocCount = 15, bytesDirty = 64, objectCount = 1, isOpen = False\<rparr>)
              \<lparr> headers := Map.empty,
                calls := [Acquire 0x10000, Release 0x10000, Munmap 0x10000 4096] \<rparr>)
   \<and> free example_config (reply 0) 0x20000 empty_world
     = Inr (empty_world\<lparr>calls := [Munmap 0x20000 4096]\<rparr>)
   \<and> free example_config (reply 0) 0x30004 (large_world 2)
     = Inr ((large_world 2)\<lparr>pageCounts := Map.empty, calls := [Munmap 0x30000 8192]\<rparr>)"
proof -
  let ?h = "\<lparr>preallocCount = 15, bytesDirty = 64, objectCount = 1, isOpen = False\<rparr>"
  have 1: "pageSize (allocator (bucket_world ?h)) \<noteq> 0"
          "unat (pageSize (allocator (bucket_world ?h))) \<le> 2 ^ 32"
          "pageSize (allocator empty_world) \<noteq> 0"
          "unat (pageSize (allocator empty_world)) \<le> 2 ^ 32"
          "pageSize (allocator (large_world 2)) \<noteq> 0"
          "unat (pageSize (allocator (large_world 2))) \<le> 2 ^ 32"
          "munmapRet (reply 0) = 0 \<or> \<not> debug example_config"
    by (simp_all add: ex_defs)
  show ?thesis
    using free_dispatch [OF 1(1,2,7), where data = "0x10030" and h = ?h]
          free_dispatch [OF 1(3,4,7), where data = "0x20000"]
          free_dispatch [OF 1(5,6,7), where data = "0x30004" and n = 2]
    by (simp add: ex_defs Let_def forget_simps)
qed

text \<open>
  Claim C2. A small request (the aligned size passes the test of line 82) made when the
  context has an open bucket whose header satisfies \<open>bytesDirty + size \<le> pageSize\<close>
  returns the address of the bucket plus the old \<open>bytesDirty\<close>; the header's \<open>bytesDirty\<close>
  has grown by the aligned size and its \<open>objectCount\<close> by one (sums of 16-bit fields:
  exact for page sizes below \<open>2^16\<close>, and for counts below their maximum); nothing else in
  the state changes, and the log gains the acquisition and the release of the bucket's
  mutex and no \<^verbatim>\<open>mmap\<close> or \<^verbatim>\<open>munmap\<close>.
\<close>

theorem allocate_bump:
  assumes small: "CC_MEM_ALIGN s \<le> pageSize (allocator w) - CC_MEM_ALIGN (headerSize cfg)"
      and b: "bucket (allocator w) \<noteq> 0"
      and h: "headers w (bucket (allocator w)) = Some h"
      and fits: "unat (bytesDirty h) + unat (CC_MEM_ALIGN s) \<le> unat (pageSize (allocator w))"
  shows "(let b = bucket (allocator w);
              h' = h\<lparr> bytesDirty := bytesDirty h + ucast (CC_MEM_ALIGN s),
                      objectCount := objectCount h + 1 \<rparr>
          in allocate cfg os s w =
               Inr (b + ucast (bytesDirty h),
                    w\<lparr> headers := (headers w)(b \<mapsto> h'),
                        calls := calls w @ [Acquire b, Release b] \<rparr>)
           \<and> (unat (pageSize (allocator w)) < 2 ^ 16 \<longrightarrow>
                unat (bytesDirty h') = unat (bytesDirty h) + unat (CC_MEM_ALIGN s))
           \<and> (objectCount h \<noteq> - 1 \<longrightarrow> unat (objectCount h') = unat (objectCount h) + 1))"
  unfolding Let_def
proof (intro conjI impI)
  show "allocate cfg os s w =
          Inr (bucket (allocator w) + ucast (bytesDirty h),
               w\<lparr> headers := (headers w)(bucket (allocator w) \<mapsto>
                       h\<lparr> bytesDirty := bytesDirty h + ucast (CC_MEM_ALIGN s),
                          objectCount := objectCount h + 1 \<rparr>),
                   calls := calls w @ [Acquire (bucket (allocator w)),
                                       Release (bucket (allocator w))] \<rparr>)"
    using assms by (rule allocate_fast)
next
  assume "unat (pageSize (allocator w)) < 2 ^ 16"
  then have "unat (bytesDirty h) + unat (CC_MEM_ALIGN s) < 2 ^ 16" using fits by linarith
  then show "unat (bytesDirty (h\<lparr> bytesDirty := bytesDirty h + ucast (CC_MEM_ALIGN s),
                                  objectCount := objectCount h + 1 \<rparr>))
             = unat (bytesDirty h) + unat (CC_MEM_ALIGN s)"
    by (simp add: bump_no_wrap)
next
  assume "objectCount h \<noteq> - 1"
  then have "1 + objectCount h \<noteq> 0"
    by (simp add: eq_neg_iff_add_eq_0 add.commute)
  then have "unat (1 + objectCount h) = Suc (unat (objectCount h))"
    by (rule unatSuc)
  then show "unat (objectCount (h\<lparr> bytesDirty := bytesDirty h + ucast (CC_MEM_ALIGN s),
                                   objectCount := objectCount h + 1 \<rparr>))
             = unat (objectCount h) + 1"
    by (simp add: add.commute)
qed

theorem allocate_bump_witness:
  "CC_MEM_ALIGN 8 \<le> pageSize (allocator (bucket_world
        \<lparr>preallocCount = 15, bytesDirty = 64, objectCount = 1, isOpen = True\<rparr>))
        - CC_MEM_ALIGN (headerSize example_config)
   \<and> allocate example_config (reply 0) 8
        (bucket_world \<lparr>preallocCount = 15, bytesDirty = 64, objectCount = 1, isOpen = True\<rparr>)
     = Inr (0x10040,
            (bucket_world \<lparr>preallocCount = 15, bytesDirty = 80, objectCount = 2, isOpen = True\<rparr>)
               \<lparr>calls := [Acquire 0x10000, Release 0x10000]\<rparr>)
   \<and> unat (80 :: 16 word) = unat (64 :: 16 word) + unat (CC_MEM_ALIGN 8)"
proof -
  let ?h = "\<lparr>preallocCount = 15, bytesDirty = 64, objectCount = 1, isOpen = True\<rparr>"
  have a: "CC_MEM_ALIGN 8 = 16" by (simp add: CC_MEM_ALIGN_def CC_MEM_GRANULARITY_def)
  have 1: "CC_MEM_ALIGN 8 \<le> pageSize (allocator (bucket_world ?h))
             - CC_MEM_ALIGN (headerSize example_config)"
    and 2: "bucket (allocator (bucket_world ?h)) \<noteq> 0"
    and 3: "headers (bucket_world ?h) (bucket (allocator (bucket_world ?h))) = Some ?h"
    and 4: "unat (bytesDirty ?h) + unat (CC_MEM_ALIGN 8)
              \<le> unat (pageSize (allocator (bucket_world ?h)))"
    by (simp_all add: ex_defs a CC_MEM_ALIGN_def CC_MEM_GRANULARITY_def)
  show ?thesis
    using 1 allocate_bump [OF 1 2 3 4, where os = "reply 0"]
    by (simp add: ex_defs Let_def a)
qed

text \<open>
  Claim C8, as amended. For a pointer whose offset in its page is strictly between 0 and
  \<open>prefixWidth\<close>, \<^verbatim>\<open>free\<close> matches none of its three branches and returns with the state
  unchanged and no call made, in a debug build as in a release build: no assertion guards
  that case.
\<close>

theorem free_stray_offset_returns:
  assumes "pageSize (allocator w) \<noteq> 0"
      and "0 < data mod pageSize (allocator w)"
      and "data mod pageSize (allocator w) < prefixWidth"
  shows "free cfg os data w = Inr w"
proof -
  let ?off = "data mod pageSize (allocator w)"
  have u: "0 < unat ?off" "unat ?off < 4"
    using assms(2,3) by (simp_all add: word_less_nat_alt prefixWidth_def)
  have o: "unat (ucast ?off :: 32 word) = unat ?off"
    using u by (simp add: unat_ucast_64_32)
  have "\<not> (ucast ?off :: 32 word) > ucast prefixWidth"
    using u o by (simp add: word_less_nat_alt prefixWidth_def)
  moreover have "(ucast ?off :: 32 word) \<noteq> 0"
    using u o by (metis less_numeral_extra(3) unat_0)
  moreover have "(ucast ?off :: 32 word) \<noteq> ucast prefixWidth"
    using u o by (auto simp: word_unat_eq_iff prefixWidth_def)
  ultimately show ?thesis
    using assms(1) by (simp add: free_def Let_def)
qed

theorem free_stray_offset_returns_witness:
  "pageSize (allocator empty_world) \<noteq> 0
   \<and> 0 < (0x10002 :: addr) mod pageSize (allocator empty_world)
   \<and> (0x10002 :: addr) mod pageSize (allocator empty_world) < prefixWidth
   \<and> free release_config (reply 0) 0x10002 empty_world = Inr empty_world"
proof -
  have 1: "pageSize (allocator empty_world) \<noteq> 0"
    and 2: "0 < (0x10002 :: addr) mod pageSize (allocator empty_world)"
    and 3: "(0x10002 :: addr) mod pageSize (allocator empty_world) < prefixWidth"
    by (simp_all add: ex_defs)
  show ?thesis
    using 1 2 3 free_stray_offset_returns [OF 1 2 3, where cfg = release_config and os = "reply 0"]
    by simp
qed

text \<open>
  Claim C8, as stated, fails: in a debug build \<^verbatim>\<open>free\<close> of a pointer at offset 2 of a page
  returns, leaving the state as it was; it does not end in the abort of \<^verbatim>\<open>CC_MEM_ASSERT\<close>.
\<close>

theorem free_stray_offset_no_abort:
  "debug example_config
   \<and> (0x10002 :: addr) mod pageSize (allocator empty_world) = 2
   \<and> free example_config (reply 0) 0x10002 empty_world = Inr empty_world
   \<and> free example_config (reply 0) 0x10002 empty_world \<noteq> Inl Abort"
  by (simp add: ex_defs free_def Let_def)

text \<open>
  Claim C10. When \<^verbatim>\<open>free\<close> is given a pointer into a bucket (offset above \<open>prefixWidth\<close>,
  header \<open>h\<close> at the start of its page) and the decremented \<open>objectCount\<close> is not 0 or the
  bucket is open, the resulting state differs from the initial one in that header's
  \<open>objectCount\<close> only, which is one less (the log gains the acquisition and release of the
  mutex, and no \<^verbatim>\<open>munmap\<close>): \<open>bytesDirty\<close>, \<open>preallocCount\<close> and \<open>isOpen\<close> are as before.
\<close>

theorem free_bucket_frame:
  fixes data :: addr
  assumes ps: "pageSize (allocator w) \<noteq> 0" "unat (pageSize (allocator w)) \<le> 2 ^ 32"
      and off: "prefixWidth < data mod pageSize (allocator w)"
      and h: "headers w (data - data mod pageSize (allocator w)) = Some h"
      and keep: "objectCount h - 1 \<noteq> 0 \<or> isOpen h"
  shows "(let b = data - data mod pageSize (allocator w) in
          free cfg os data w =
            Inr (w\<lparr> headers := (headers w)(b \<mapsto> h\<lparr>objectCount := objectCount h - 1\<rparr>),
                    calls := calls w @ [Acquire b, Release b] \<rparr>)
          \<and> (objectCount h \<noteq> 0 \<longrightarrow> unat (objectCount h - 1) + 1 = unat (objectCount h)))"
proof -
  have "free cfg os data w =
          Inr (w\<lparr> headers := (headers w)(data - data mod pageSize (allocator w)
                                  \<mapsto> h\<lparr>objectCount := objectCount h - 1\<rparr>),
                  calls := calls w @ [Acquire (data - data mod pageSize (allocator w)),
                                      Release (data - data mod pageSize (allocator w))] \<rparr>)"
    using free_bucket_path [OF ps off h, of os cfg] keep by auto
  moreover have "unat (objectCount h - 1) + 1 = unat (objectCount h)" if "objectCount h \<noteq> 0"
    using that by (simp add: unat_minus_one unat_gt_0)
  ultimately show ?thesis by (simp add: Let_def)
qed

theorem free_bucket_frame_witness:
  "prefixWidth < (0x10030 :: addr) mod pageSize (allocator (bucket_world
        \<lparr>preallocCount = 15, bytesDirty = 80, objectCount = 2, isOpen = False\<rparr>))
   \<and> free example_config (reply 0) 0x10030
        (bucket_world \<lparr>preallocCount = 15, bytesDirty = 80, objectCount = 2, isOpen = False\<rparr>)
     = Inr ((bucket_world \<lparr>preallocCount = 15, bytesDirty = 80, objectCount = 1, isOpen = False\<rparr>)
              \<lparr>calls := [Acquire 0x10000, Release 0x10000]\<rparr>)"
proof -
  let ?h = "\<lparr>preallocCount = 15, bytesDirty = 80, objectCount = 2, isOpen = False\<rparr>"
  let ?w = "bucket_world ?h"
  have 1: "pageSize (allocator ?w) \<noteq> 0" and 2: "unat (pageSize (allocator ?w)) \<le> 2 ^ 32"
    and 3: "prefixWidth < (0x10030 :: addr) mod pageSize (allocator ?w)"
    and 4: "headers ?w (0x10030 - 0x10030 mod pageSize (allocator ?w)) = Some ?h"
    and 5: "objectCount ?h - 1 \<noteq> 0 \<or> isOpen ?h"
    by (simp_all add: ex_defs)
  show ?thesis
    using 3 free_bucket_frame [OF 1 2 3 4 5, where cfg = example_config and os = "reply 0"]
    by (simp add: ex_defs Let_def)
qed



text \<open>
  Claim C6. A request whose aligned size is at most the page size but fails the test of
  line 82 - in particular every size in \<open>(pageSize - headerSize, pageSize]\<close> when the
  page size is a multiple of 16 and at least the header size - makes exactly one call,
  \<^verbatim>\<open>mmap\<close> of \<open>pageSize\<close> bytes, changes nothing in the store, and returns the address
  \<^verbatim>\<open>mmap\<close> returned: a page-aligned pointer, as the base of a mapping is.
\<close>

theorem allocate_direct:
  assumes cls: "(\<not> CC_MEM_ALIGN s \<le> pageSize (allocator w) - CC_MEM_ALIGN (headerSize cfg) \<and>
                 CC_MEM_ALIGN s \<le> pageSize (allocator w))
              \<or> (16 dvd unat (pageSize (allocator w)) \<and>
                  unat (headerSize cfg) \<le> unat (pageSize (allocator w)) \<and>
                  unat (pageSize (allocator w)) - unat (headerSize cfg) < unat s \<and>
                  unat s \<le> unat (pageSize (allocator w)))"
      and mapped: "mmapRet os \<noteq> MAP_FAILED \<or> \<not> debug cfg"
      and aligned: "mmapRet os mod pageSize (allocator w) = 0"
  shows "allocate cfg os s w =
           Inr (mmapRet os, w\<lparr>calls := calls w @ [Mmap (mmapRet os) (pageSize (allocator w))]\<rparr>)
         \<and> (\<forall>p w'. allocate cfg os s w = Inr (p, w') \<longrightarrow> p mod pageSize (allocator w) = 0)"
proof -
  have "\<not> CC_MEM_ALIGN s \<le> pageSize (allocator w) - CC_MEM_ALIGN (headerSize cfg) \<and>
        CC_MEM_ALIGN s \<le> pageSize (allocator w)"
    using cls direct_range [of "pageSize (allocator w)" "headerSize cfg" s] by blast
  then have "allocate cfg os s w =
           Inr (mmapRet os, w\<lparr>calls := calls w @ [Mmap (mmapRet os) (pageSize (allocator w))]\<rparr>)"
    using mapped by (intro allocate_direct_path) simp_all
  then show ?thesis using aligned by simp
qed

theorem allocate_direct_witness:
  "16 dvd unat (pageSize (allocator empty_world))
   \<and> unat (pageSize (allocator empty_world)) - unat (headerSize example_config) < unat (4090 :: 64 word)
   \<and> unat (4090 :: 64 word) \<le> unat (pageSize (allocator empty_world))
   \<and> allocate example_config (reply 0x20000) 4090 empty_world
       = Inr (0x20000, empty_world\<lparr>calls := [Mmap 0x20000 4096]\<rparr>)
   \<and> (0x20000 :: addr) mod pageSize (allocator empty_world) = 0"
proof -
  have 1: "(\<not> CC_MEM_ALIGN 4090 \<le> pageSize (allocator empty_world) - CC_MEM_ALIGN (headerSize example_config) \<and>
                 CC_MEM_ALIGN 4090 \<le> pageSize (allocator empty_world))
              \<or> (16 dvd unat (pageSize (allocator empty_world)) \<and>
                  unat (headerSize example_config) \<le> unat (pageSize (allocator empty_world)) \<and>
                  unat (pageSize (allocator empty_world)) - unat (headerSize example_config) < unat (4090 :: 64 word) \<and>
                  unat (4090 :: 64 word) \<le> unat (pageSize (allocator empty_world)))"
    and 2: "mmapRet (reply 0x20000) \<noteq> MAP_FAILED \<or> \<not> debug example_config"
    and 3: "mmapRet (reply 0x20000) mod pageSize (allocator empty_world) = 0"
    by (simp_all add: ex_defs MAP_FAILED_def)
  show ?thesis
    using allocate_direct [OF 1 2 3]
    by (simp add: ex_defs)
qed

text \<open>
  Claim C9 does not hold of the code. A request of \<open>2^64 - 1\<close> bytes has a size above 0
  and passes the test of line 82, for \<^verbatim>\<open>CC_MEM_ALIGN\<close> wraps it to 0. With 4096-byte pages
  and a 48-byte header, made after a request of 4048 bytes has filled the first bucket, it
  passes the test of line 89 (\<open>0 \<le> 4096 - 4096\<close>) and is given the address
  \<open>bucket + 4096\<close>, whose offset in its page is 0: less than \<open>align(headerSize)\<close> and not
  above \<open>prefixWidth\<close>. \<^verbatim>\<open>free\<close> of that pointer takes the branch of the direct
  allocations and unmaps the page that follows the bucket, and the \<open>objectCount\<close> of the
  bucket stays 2. The defect is the one that breaks claim C4, an aligned size of 0 served
  from a full bucket, reached here by a size above 0.

  For the sizes that \<^verbatim>\<open>CC_MEM_ALIGN\<close> does not wrap, the claim holds of each call in a state
  whose open bucket is well-formed (\<open>allocate_small_pointer\<close>), and of every pointer
  returned along a sequence of such requests and of releases (\<open>small_pointers_run\<close>).
\<close>

theorem wrapped_size_page_aligned:
  "0 < unat (- 1 :: 64 word)
   \<and> CC_MEM_ALIGN (- 1) = 0
   \<and> CC_MEM_ALIGN (- 1)
        \<le> pageSize (allocator empty_world) - CC_MEM_ALIGN (headerSize example_config)
   \<and> run example_config [(Allocate 4048, reply 0x10000), (Allocate (- 1), reply 0x10000)] []
        empty_world
       = Inr ([0x10030, 0x11000], wrapped_size_end)
   \<and> (0x11000 :: addr) mod pageSize (allocator wrapped_size_end) = 0
   \<and> \<not> bucket_pointer example_config (pageSize (allocator wrapped_size_end)) 0x11000
   \<and> \<not> ucast prefixWidth
          < (ucast ((0x11000 :: addr) mod pageSize (allocator wrapped_size_end)) :: 32 word)
   \<and> free example_config (reply 0) 0x11000 wrapped_size_end
       = Inr (wrapped_size_end\<lparr>calls := calls wrapped_size_end @ [Munmap 0x11000 4096]\<rparr>)"
proof -
  have u: "unat (- 1 :: 64 word) = 2 ^ 64 - 1"
    by (simp add: unsigned_minus_1_eq_mask mask_eq_exp_minus_1)
  have a: "CC_MEM_ALIGN (- 1) = 0" by (rule CC_MEM_ALIGN_wraps)
  have r: "run example_config [(Allocate 4048, reply 0x10000), (Allocate (- 1), reply 0x10000)] []
        empty_world
       = Inr ([0x10030, 0x11000], wrapped_size_end)"
    by (simp add: ex_defs run_defs a wrapped_size_end_def)
  have f: "free example_config (reply 0) 0x11000 wrapped_size_end
       = Inr (wrapped_size_end\<lparr>calls := calls wrapped_size_end @ [Munmap 0x11000 4096]\<rparr>)"
    by (simp add: ex_defs run_defs wrapped_size_end_def)
  show ?thesis
    using u a r f
    by (simp add: ex_defs wrapped_size_end_def bucket_pointer_def CC_MEM_ALIGN_examples)
qed

text \<open>
  Claim C5, as amended. On a supported platform, for every size \<open>s > pageSize\<close> that
  \<^verbatim>\<open>CC_MEM_ALIGN\<close> rounds up without wrapping (\<open>s \<le> 2^64 - 16\<close>) and whose aligned size
  plus \<open>prefixWidth\<close> is at most \<open>2^32 - 1\<close> pages (so that the page count fits the
  32-bit prefix), and with \<^verbatim>\<open>mmap\<close> returning a page-aligned address: \<^verbatim>\<open>allocate\<close> maps \<open>n\<close> pages in one call,
  where \<open>n\<close> pages are the fewest that cover the aligned size plus \<open>prefixWidth\<close>, stores
  \<open>n\<close> at the start of the mapping and returns the address \<open>prefixWidth\<close> bytes after
  it; \<^verbatim>\<open>free\<close> of that pointer then makes the single call \<^verbatim>\<open>munmap\<close> of exactly those \<open>n\<close>
  pages at the start of the mapping.
\<close>

theorem large_roundtrip:
  assumes pl: "platform_ok cfg w"
      and mapped: "mmapRet os \<noteq> MAP_FAILED"
                  "unat (mmapRet os) mod unat (pageSize (allocator w)) = 0"
                  "unat (mmapRet os) + unat (pageSize (allocator w)) < 2 ^ 64"
      and os': "munmapRet os' = 0 \<or> \<not> debug cfg"
      and big: "unat (pageSize (allocator w)) < unat s"
      and nowrap: "unat s + 15 < 2 ^ 64"
      and rng: "unat (CC_MEM_ALIGN s) + unat prefixWidth
                  \<le> (2 ^ 32 - 1) * unat (pageSize (allocator w))"
  shows "\<exists>n w1 w2.
           allocate cfg os s w = Inr (mmapRet os + prefixWidth, w1) \<and>
           pageCounts w1 (mmapRet os) = Some n \<and>
           calls w1 = calls w @ [Mmap (mmapRet os) (ucast n * pageSize (allocator w))] \<and>
           unat (ucast n * pageSize (allocator w)) = unat n * unat (pageSize (allocator w)) \<and>
           unat (CC_MEM_ALIGN s) + unat prefixWidth \<le> unat n * unat (pageSize (allocator w)) \<and>
           unat n * unat (pageSize (allocator w))
             < unat (CC_MEM_ALIGN s) + unat prefixWidth + unat (pageSize (allocator w)) \<and>
           free cfg os' (mmapRet os + prefixWidth) w1 = Inr w2 \<and>
           calls w2 = calls w1 @ [Munmap (mmapRet os) (ucast n * pageSize (allocator w))]"
proof -
  let ?ps = "pageSize (allocator w)" and ?a = "CC_MEM_ALIGN (headerSize cfg)"
  let ?sz = "CC_MEM_ALIGN s"
  let ?sz' = "?sz + prefixWidth"
  let ?n64 = "?sz' div ?ps + (if ?sz' mod ?ps > 0 then 1 else 0)"
  let ?n = "ucast ?n64 :: 32 word"
  note pf = platform_facts [OF pl]
  have ps0: "0 < unat ?ps" using pf(1) by (simp add: unat_gt_0)
  have ps16: "16 \<le> unat ?ps" using pf(3) ps0 by (auto elim: dvdE)
  have "(2 ^ 32 - 1) * unat ?ps \<le> (2 ^ 32 - 1) * 2 ^ 16"
    using pf(2) by (intro mult_le_mono2) simp
  then have s48: "unat ?sz + 4 \<le> (2 ^ 32 - 1) * 2 ^ 16"
    using rng by (simp add: prefixWidth_def)
  have szb: "unat s \<le> unat ?sz"
    by (rule CC_MEM_ALIGN_bounds [OF nowrap])
  have nsmall: "\<not> ?sz \<le> ?ps - ?a"
    using big szb by (simp add: small_iff [OF pf(5)])
  have nfit: "\<not> ?sz \<le> ?ps" using big szb by (simp add: word_le_nat_alt)
  have usz': "unat ?sz' = unat ?sz + 4"
    using s48 by (simp add: prefixWidth_def unat_add_no_wrap)
  have c: "unat (if ?sz' mod ?ps > 0 then 1 else (0 :: 64 word))
             = (if unat ?sz' mod unat ?ps > 0 then 1 else 0)"
    by (simp add: word_less_nat_alt unat_mod)
  let ?k = "unat ?sz' div unat ?ps + (if unat ?sz' mod unat ?ps > 0 then 1 else 0)"
  note cd = ceil_div_nat [OF ps0, of "unat ?sz'"]
  have "?k * unat ?ps < unat ?sz + 4 + unat ?ps" using cd(2) usz' by linarith
  moreover have "unat ?sz + 4 \<le> 4294967295 * unat ?ps" using rng by (simp add: prefixWidth_def)
  ultimately have "?k * unat ?ps < 4294967296 * unat ?ps" by linarith
  then have k32: "?k < 2 ^ 32" by simp
  then have "unat (?sz' div ?ps) + unat (if ?sz' mod ?ps > 0 then 1 else (0 :: 64 word)) < 2 ^ 64"
    unfolding c by (simp add: unat_div)
  then have un64: "unat ?n64 = ?k"
    unfolding c [symmetric] by (simp add: unat_add_no_wrap unat_div)
  have un: "unat ?n = ?k" using un64 k32 by (simp add: unat_ucast_64_32)
  let ?w1 = "w\<lparr> pageCounts := (pageCounts w)(mmapRet os \<mapsto> ?n),
                 calls := calls w @ [Mmap (mmapRet os) (ucast ?n * ?ps)] \<rparr>"
  have res: "allocate cfg os s w = Inr (mmapRet os + prefixWidth, ?w1)"
    using allocate_large_path [OF nsmall nfit pf(1) mapped(1)] by (simp add: Let_def)
  have lt: "unat prefixWidth < unat ?ps" using ps16 by (simp add: prefixWidth_def)
  have "unat ((mmapRet os + prefixWidth) mod ?ps) = unat prefixWidth"
    by (rule page_offset [OF mapped(2,3) lt])
  then have off: "(mmapRet os + prefixWidth) mod pageSize (allocator ?w1) = prefixWidth"
    by (simp add: word_unat_eq_iff)
  have fr: "free cfg os' (mmapRet os + prefixWidth) ?w1 =
          Inr (?w1\<lparr> headers := forget os' (mmapRet os + prefixWidth - prefixWidth)
                                   (ucast ?n * pageSize (allocator ?w1)) (headers ?w1),
                     pageCounts := forget os' (mmapRet os + prefixWidth - prefixWidth)
                                     (ucast ?n * pageSize (allocator ?w1)) (pageCounts ?w1),
                     calls := calls ?w1 @ [Munmap (mmapRet os + prefixWidth - prefixWidth)
                                            (ucast ?n * pageSize (allocator ?w1))] \<rparr>)"
    using pf(1) off os' by (intro free_large_path) simp_all
  have bytes: "unat (ucast ?n * ?ps) = unat ?n * unat ?ps"
    using pf(2) by (intro unat_pages_bytes) simp
  show ?thesis
    apply (intro exI conjI)
           apply (rule res)
          apply simp
         apply simp
        apply (rule bytes)
       using cd(1) un usz' apply (simp add: prefixWidth_def)
      using cd(2) un usz' apply (simp add: prefixWidth_def)
     apply (rule fr)
    apply simp
    done
qed

theorem large_roundtrip_witness:
  "platform_ok example_config empty_world
   \<and> unat (pageSize (allocator empty_world)) < unat (5000 :: 64 word)
   \<and> unat (CC_MEM_ALIGN 5000) + unat prefixWidth
         \<le> (2 ^ 32 - 1) * unat (pageSize (allocator empty_world))
   \<and> allocate example_config (reply 0x30000) 5000 empty_world
       = Inr (0x30004, empty_world\<lparr>pageCounts := [0x30000 \<mapsto> 2], calls := [Mmap 0x30000 8192]\<rparr>)
   \<and> free example_config (reply 0) 0x30004
         (empty_world\<lparr>pageCounts := [0x30000 \<mapsto> 2], calls := [Mmap 0x30000 8192]\<rparr>)
       = Inr (empty_world\<lparr>calls := [Mmap 0x30000 8192, Munmap 0x30000 8192]\<rparr>)"
proof -
  have 1: "platform_ok example_config empty_world"
    and 2: "mmapRet (reply 0x30000) \<noteq> MAP_FAILED"
           "unat (mmapRet (reply 0x30000)) mod unat (pageSize (allocator empty_world)) = 0"
           "unat (mmapRet (reply 0x30000)) + unat (pageSize (allocator empty_world)) < 2 ^ 64"
    and 3: "munmapRet (reply 0) = 0 \<or> \<not> debug example_config"
    and 4: "unat (pageSize (allocator empty_world)) < unat (5000 :: 64 word)"
    and 5: "unat (5000 :: 64 word) + 15 < 2 ^ 64"
    and 6: "unat (CC_MEM_ALIGN 5000) + unat prefixWidth
              \<le> (2 ^ 32 - 1) * unat (pageSize (allocator empty_world))"
    by (simp_all add: platform_ok_def ex_defs MAP_FAILED_def CC_MEM_ALIGN_examples)
  from large_roundtrip [OF 1 2 3 4 5 6]
  obtain n w1 w2 where
    a: "allocate example_config (reply 0x30000) 5000 empty_world
          = Inr (mmapRet (reply 0x30000) + prefixWidth, w1)"
    and f: "free example_config (reply 0) (mmapRet (reply 0x30000) + prefixWidth) w1 = Inr w2"
    by (elim exE conjE)
  have e: "allocate example_config (reply 0x30000) 5000 empty_world
       = Inr (0x30004, empty_world\<lparr>pageCounts := [0x30000 \<mapsto> 2], calls := [Mmap 0x30000 8192]\<rparr>)"
    by (simp add: ex_defs run_defs)
  have w1: "w1 = empty_world\<lparr>pageCounts := [0x30000 \<mapsto> 2], calls := [Mmap 0x30000 8192]\<rparr>"
    using a e by simp
  have "free example_config (reply 0) 0x30004
         (empty_world\<lparr>pageCounts := [0x30000 \<mapsto> 2], calls := [Mmap 0x30000 8192]\<rparr>)
       = Inr (empty_world\<lparr>calls := [Mmap 0x30000 8192, Munmap 0x30000 8192]\<rparr>)"
    by (simp add: ex_defs run_defs)
  then show ?thesis using 1 4 6 e f [unfolded w1] by simp
qed

text \<open>
  Claim C5, as stated for every size above the page size, fails. With 4096-byte pages a
  request of \<open>2^44\<close> bytes needs \<open>2^32 + 1\<close> pages; the count is cut to 32 bits, so one
  page is mapped and 1 is stored. A request of \<open>2^64 - 1\<close> bytes is aligned to 0 by the
  wrap-around of \<^verbatim>\<open>CC_MEM_ALIGN\<close> and is served from a bucket as an object of no bytes.
\<close>

theorem large_request_truncated:
  "unat (pageSize (allocator empty_world)) < unat (2 ^ 44 :: 64 word)
   \<and> allocate example_config (reply 0x30000) (2 ^ 44) empty_world
     = Inr (0x30004, empty_world\<lparr>pageCounts := [0x30000 \<mapsto> 1], calls := [Mmap 0x30000 4096]\<rparr>)
   \<and> \<not> unat (CC_MEM_ALIGN (2 ^ 44)) + unat prefixWidth \<le> 1 * unat (pageSize (allocator empty_world))
   \<and> unat (pageSize (allocator empty_world)) < unat (- 1 :: 64 word)
   \<and> allocate example_config (reply 0x10000) (- 1) empty_world
     = Inr (0x10030,
            empty_world\<lparr> allocator := \<lparr>pageSize = 4096, bucket = 0x10000\<rparr>,
                          headers := [0x10000 \<mapsto>
                             \<lparr>preallocCount = 15, bytesDirty = 48, objectCount = 1, isOpen = True\<rparr>],
                          calls := [Mmap 0x10000 0x10000] \<rparr>)"
proof -
  have t: "(4294967297 :: 32 word) = 1" by simp
  have u: "unat (- 1 :: 64 word) = 2 ^ 64 - 1"
    by (simp add: unsigned_minus_1_eq_mask mask_eq_exp_minus_1)
  show ?thesis
    by (simp add: ex_defs run_defs CC_MEM_ALIGN_def CC_MEM_GRANULARITY_def t u)
qed




text \<open>
  Claim C4 does not hold of the code. With 4096-byte pages and a 48-byte header: a request
  of 4048 bytes fills the first bucket of a new run; a request of 0 bytes then passes the
  test of line 89 (\<open>0 \<le> 4096 - 4096\<close>) and is given the address \<open>bucket + 4096\<close>, the start
  of the next page; a request of 16 bytes closes the first bucket and opens the next one
  on that very page; \<^verbatim>\<open>free\<close> of the 0-byte object finds offset 0, takes it for a direct
  allocation and unmaps the page of the new bucket, whose \<open>objectCount\<close> is 1 and which
  is open. The header of that bucket is gone with its page, the context still points to
  it, and the first bucket keeps \<open>objectCount = 2\<close> with one object left; the next
  request, or the release of the 16-byte object, accesses the unmapped page.

  One half of the claim holds on every sequence (\<open>store_ok_run\<close>): a bucket that is
  closed and empty does not stay in the store. The other half, that a bucket's page is
  unmapped only then, is what the request of 0 bytes breaks.
\<close>

theorem zero_size_unmaps_live_bucket:
  "run example_config [(Allocate 4048, reply 0x10000), (Allocate 0, reply 0x10000),
                       (Allocate 16, reply 0x10000)] [] empty_world
     = Inr ([0x10030, 0x11000, 0x11030], zero_size_before)
   \<and> headers zero_size_before 0x11000
       = Some \<lparr>preallocCount = 14, bytesDirty = 64, objectCount = 1, isOpen = True\<rparr>
   \<and> run example_config [(Allocate 4048, reply 0x10000), (Allocate 0, reply 0x10000),
                         (Allocate 16, reply 0x10000), (Free 1, reply 0x10000)] [] empty_world
     = Inr ([0x10030, 0x11000, 0x11030], zero_size_end)
   \<and> calls zero_size_end = calls zero_size_before @ [Munmap 0x11000 4096]
   \<and> headers zero_size_end 0x11000 = None
   \<and> bucket (allocator zero_size_end) = 0x11000
   \<and> headers zero_size_end 0x10000
       = Some \<lparr>preallocCount = 15, bytesDirty = 4096, objectCount = 2, isOpen = False\<rparr>
   \<and> run example_config [(Allocate 4048, reply 0x10000), (Allocate 0, reply 0x10000),
                         (Allocate 16, reply 0x10000), (Free 1, reply 0x10000),
                         (Allocate 8, reply 0x10000)] [] empty_world
     = Inl Fault
   \<and> run example_config [(Allocate 4048, reply 0x10000), (Allocate 0, reply 0x10000),
                         (Allocate 16, reply 0x10000), (Free 1, reply 0x10000),
                         (Free 2, reply 0x10000)] [] empty_world
     = Inl Fault"
  by (simp add: ex_defs run_defs zero_size_before_def zero_size_end_def)

end
